theory Spec2Isabelle
  imports Main
begin

section \<open>Data model of the VideoCall component (src/webrtc.jsx)\<close>

text \<open>
  The component keeps four references: the two video elements, \<open>pcRef\<close> (the current
  RTCPeerConnection or null) and \<open>localStreamRef\<close> (the current local MediaStream or null).
  Peer connections and media tracks are browser objects with identity, shared between
  the references, the senders of a connection and the closures registered on them.
  They live in two stores (lists indexed by handle); a handle is the index at which the
  object was created. The messages handed to \<open>socket.emit\<close> are logged in \<open>emitted\<close>.
\<close>

datatype kind = Audio | Video

datatype source = UserMedia | DisplayMedia

datatype readyState = Live | Ended

record track =
  kind :: kind
  enabled :: bool
  readyState :: readyState
  source :: source
  onended :: bool

datatype srcObject = Null | Local "nat list" | Remote nat

datatype sdpType = OfferType | AnswerType

text \<open>A session description: its type, whether it asks for an ICE restart, an opaque body.\<close>

datatype sdp = Sdp sdpType bool nat

datatype signal =
    Offer sdp
  | Answer sdp
  | IceCandidate nat
  | ReconnectOffer sdp
  | ReconnectAnswer sdp
  | CallEnded

datatype connectionState = New | Connecting | Connected | Disconnected | Failed | Closed

record engine =
  isClosed :: bool
  connectionState :: connectionState
  senders :: "nat option list"
  localDescription :: "sdp option"
  remoteDescription :: "sdp option"
  remoteCandidates :: "nat list"

record session =
  localVideoRef :: "srcObject option"
  remoteVideoRef :: "srcObject option"
  pcRef :: "nat option"
  localStreamRef :: "nat list option"
  engines :: "engine list"
  tracks :: "track list"
  emitted :: "signal list"

text \<open>
  The browser decides whether each awaited primitive resolves or rejects. One \<open>env\<close>
  record fixes these answers for one run of a handler; when an awaited call rejects, the
  handler stops there and the mutations made so far stay. The functions of the component
  are first written as they run when no other handler runs between their awaits. The
  await inside \<open>startCamera\<close> lies between a test and an assignment of \<open>localStreamRef\<close>;
  what other handlers do while a handler waits there is modelled further down, by
  \<open>istep\<close>.
\<close>

record env =
  getUserMedia_ok :: bool
  getDisplayMedia_ok :: bool
  createOffer_ok :: bool
  createAnswer_ok :: bool
  setLocalDescription_ok :: bool
  setRemoteDescription_ok :: bool
  addIceCandidate_ok :: bool

datatype error =
    GetUserMediaRejected
  | GetDisplayMediaRejected
  | CreateOfferRejected
  | CreateAnswerRejected
  | SetLocalDescriptionRejected
  | SetRemoteDescriptionRejected
  | AddIceCandidateRejected
  | NullReference

datatype outcome = Resolved | Rejected error

definition initial :: "session" where
  "initial = \<lparr> localVideoRef = Some Null, remoteVideoRef = Some Null, pcRef = None,
     localStreamRef = None, engines = [], tracks = [], emitted = [] \<rparr>"

definition okEnv :: "env" where
  "okEnv = \<lparr> getUserMedia_ok = True, getDisplayMedia_ok = True, createOffer_ok = True,
     createAnswer_ok = True, setLocalDescription_ok = True, setRemoteDescription_ok = True,
     addIceCandidate_ok = True \<rparr>"

section \<open>Browser primitives\<close>

definition updEngine :: "nat \<Rightarrow> (engine \<Rightarrow> engine) \<Rightarrow> session \<Rightarrow> session" where
  "updEngine pc f s =
     (if pc < length (engines s) then s\<lparr>engines := (engines s)[pc := f (engines s ! pc)]\<rparr>
      else s)"

definition updTrack :: "nat \<Rightarrow> (track \<Rightarrow> track) \<Rightarrow> session \<Rightarrow> session" where
  "updTrack t f s =
     (if t < length (tracks s) then s\<lparr>tracks := (tracks s)[t := f (tracks s ! t)]\<rparr>
      else s)"

definition engineLive :: "nat \<Rightarrow> session \<Rightarrow> bool" where
  "engineLive pc s = (pc < length (engines s) \<and> \<not> isClosed (engines s ! pc))"

text \<open>\<open>RTCPeerConnection.close()\<close>: never throws; closing a closed connection changes nothing.\<close>

definition closeEngine :: "nat \<Rightarrow> session \<Rightarrow> session" where
  "closeEngine pc s = updEngine pc (\<lambda>e. e\<lparr>isClosed := True, connectionState := Closed\<rparr>) s"

text \<open>\<open>MediaStreamTrack.stop()\<close>.\<close>

definition stopTrack :: "nat \<Rightarrow> session \<Rightarrow> session" where
  "stopTrack t s = updTrack t (\<lambda>tr. tr\<lparr>readyState := Ended\<rparr>) s"

definition newTrack :: "kind \<Rightarrow> source \<Rightarrow> track" where
  "newTrack k src = \<lparr> kind = k, enabled = True, readyState = Live, source = src,
     onended = False \<rparr>"

text \<open>
  \<open>getUserMedia({video: true, audio: true})\<close>, when it resolves: a new stream of one new
  audio and one new video track. \<open>getDisplayMedia({video: true})\<close>: a new stream of one
  new video track.
\<close>

definition getUserMedia :: "session \<Rightarrow> nat list \<times> session" where
  "getUserMedia s =
     (let n = length (tracks s)
      in ([n, Suc n],
          s\<lparr>tracks := tracks s @ [newTrack Audio UserMedia, newTrack Video UserMedia]\<rparr>))"

definition getDisplayMedia :: "session \<Rightarrow> nat list \<times> session" where
  "getDisplayMedia s =
     (let n = length (tracks s)
      in ([n], s\<lparr>tracks := tracks s @ [newTrack Video DisplayMedia]\<rparr>))"

text \<open>\<open>stream.getAudioTracks()\<close> / \<open>stream.getVideoTracks()\<close>.\<close>

definition getTracksOfKind :: "kind \<Rightarrow> nat list \<Rightarrow> session \<Rightarrow> nat list" where
  "getTracksOfKind k st s =
     filter (\<lambda>t. t < length (tracks s) \<and> kind (tracks s ! t) = k) st"

text \<open>\<open>if (ref.current) ref.current.srcObject = v\<close>: nothing happens while the element is not mounted.\<close>

definition setSrcObject :: "srcObject \<Rightarrow> srcObject option \<Rightarrow> srcObject option" where
  "setSrcObject v el = (case el of None \<Rightarrow> None | Some _ \<Rightarrow> Some v)"

text \<open>
  The engine's negotiation primitives reject on a closed connection and whenever
  the environment says so.
\<close>

definition setLocalDescription :: "env \<Rightarrow> nat \<Rightarrow> sdp \<Rightarrow> session \<Rightarrow> outcome \<times> session" where
  "setLocalDescription ev pc d s =
     (if engineLive pc s \<and> setLocalDescription_ok ev
      then (Resolved, updEngine pc (\<lambda>e. e\<lparr>localDescription := Some d\<rparr>) s)
      else (Rejected SetLocalDescriptionRejected, s))"

definition setRemoteDescription :: "env \<Rightarrow> nat \<Rightarrow> sdp \<Rightarrow> session \<Rightarrow> outcome \<times> session" where
  "setRemoteDescription ev pc d s =
     (if engineLive pc s \<and> setRemoteDescription_ok ev
      then (Resolved, updEngine pc (\<lambda>e. e\<lparr>remoteDescription := Some d\<rparr>) s)
      else (Rejected SetRemoteDescriptionRejected, s))"

definition addIceCandidate :: "env \<Rightarrow> nat \<Rightarrow> nat \<Rightarrow> session \<Rightarrow> outcome \<times> session" where
  "addIceCandidate ev pc c s =
     (if engineLive pc s \<and> addIceCandidate_ok ev
      then (Resolved, updEngine pc (\<lambda>e. e\<lparr>remoteCandidates := remoteCandidates e @ [c]\<rparr>) s)
      else (Rejected AddIceCandidateRejected, s))"

text \<open>
  \<open>pc.createOffer(opts)\<close> and \<open>pc.createAnswer()\<close>: the description made by an engine
  carries the engine's handle as its opaque body.
\<close>

definition createOffer :: "env \<Rightarrow> nat \<Rightarrow> bool \<Rightarrow> session \<Rightarrow> sdp option" where
  "createOffer ev pc iceRestart s =
     (if engineLive pc s \<and> createOffer_ok ev then Some (Sdp OfferType iceRestart pc) else None)"

definition createAnswer :: "env \<Rightarrow> nat \<Rightarrow> session \<Rightarrow> sdp option" where
  "createAnswer ev pc s =
     (if engineLive pc s \<and> createAnswer_ok ev then Some (Sdp AnswerType False pc) else None)"

text \<open>
  \<open>pc.getSenders().find((s) => s.track?.kind === "video")\<close>: the index of the first
  sender that carries a video track.
\<close>

fun findVideoSender :: "track list \<Rightarrow> nat option list \<Rightarrow> nat option" where
  "findVideoSender ts [] = None"
| "findVideoSender ts (None # xs) = map_option Suc (findVideoSender ts xs)"
| "findVideoSender ts (Some t # xs) =
     (if t < length ts \<and> kind (ts ! t) = Video then Some 0
      else map_option Suc (findVideoSender ts xs))"

text \<open>
  \<open>sender?.replaceTrack(track)\<close>, not awaited in the source: with no connection or no
  video sender nothing happens; on a closed connection the promise rejects unobserved.
\<close>

definition replaceVideoTrack :: "nat \<Rightarrow> session \<Rightarrow> session" where
  "replaceVideoTrack t s =
     (case pcRef s of
        None \<Rightarrow> s
      | Some pc \<Rightarrow>
          (if engineLive pc s
           then (case findVideoSender (tracks s) (senders (engines s ! pc)) of
                   None \<Rightarrow> s
                 | Some i \<Rightarrow> updEngine pc (\<lambda>e. e\<lparr>senders := (senders e)[i := Some t]\<rparr>) s)
           else s))"

text \<open>The statement pair \<open>pcRef.current?.close(); pcRef.current = null;\<close>.\<close>

definition closeCurrent :: "session \<Rightarrow> session" where
  "closeCurrent s =
     (case pcRef s of None \<Rightarrow> s | Some pc \<Rightarrow> closeEngine pc s)\<lparr>pcRef := None\<rparr>"

definition emit :: "signal \<Rightarrow> session \<Rightarrow> session" where
  "emit m s = s\<lparr>emitted := emitted s @ [m]\<rparr>"

section \<open>The component's functions\<close>

text \<open>
  \<open>startCamera\<close>, uninterrupted: the test of line 18, the awaited \<open>getUserMedia\<close> of line 20
  and the assignments of lines 25 to 29 in one go.
\<close>

definition startCamera :: "env \<Rightarrow> session \<Rightarrow> outcome \<times> session" where
  "startCamera ev s =
     (if localStreamRef s \<noteq> None then (Resolved, s)
      else if \<not> getUserMedia_ok ev then (Rejected GetUserMediaRejected, s)
      else (case getUserMedia s of
              (stream, s1) \<Rightarrow>
                (Resolved, s1\<lparr>localStreamRef := Some stream,
                              localVideoRef := setSrcObject (Local stream) (localVideoRef s1)\<rparr>)))"

text \<open>
  \<open>createPeerConnection\<close>: a new engine, one sender per track of the held stream, stored
  in \<open>pcRef\<close>. Whatever \<open>pcRef\<close> held before is overwritten, not closed.
\<close>

definition createPeerConnection :: "session \<Rightarrow> session" where
  "createPeerConnection s =
     (let pc = length (engines s);
          e = \<lparr> isClosed = False, connectionState = New,
                senders = (case localStreamRef s of None \<Rightarrow> [] | Some st \<Rightarrow> map Some st),
                localDescription = None, remoteDescription = None, remoteCandidates = [] \<rparr>
      in s\<lparr>engines := engines s @ [e], pcRef := Some pc\<rparr>)"

text \<open>The tail shared by \<open>startCall\<close> and \<open>reconnectCall\<close>: create an offer, set it, emit it.\<close>

definition offerAndEmit :: "env \<Rightarrow> bool \<Rightarrow> (sdp \<Rightarrow> signal) \<Rightarrow> session \<Rightarrow> outcome \<times> session" where
  "offerAndEmit ev iceRestart mk s =
     (case pcRef s of
        None \<Rightarrow> (Rejected NullReference, s)
      | Some pc \<Rightarrow>
          (case createOffer ev pc iceRestart s of
             None \<Rightarrow> (Rejected CreateOfferRejected, s)
           | Some offer \<Rightarrow>
               (case setLocalDescription ev pc offer s of
                  (Rejected e, s1) \<Rightarrow> (Rejected e, s1)
                | (Resolved, s1) \<Rightarrow> (Resolved, emit (mk offer) s1))))"

definition startCall :: "env \<Rightarrow> session \<Rightarrow> outcome \<times> session" where
  "startCall ev s =
     (case startCamera ev s of
        (Rejected e, s1) \<Rightarrow> (Rejected e, s1)
      | (Resolved, s1) \<Rightarrow> offerAndEmit ev False Offer (createPeerConnection s1))"

definition toggleAudio :: "session \<Rightarrow> session" where
  "toggleAudio s =
     (case localStreamRef s of
        None \<Rightarrow> s
      | Some st \<Rightarrow>
          (case getTracksOfKind Audio st s of
             [] \<Rightarrow> s
           | t # _ \<Rightarrow> updTrack t (\<lambda>tr. tr\<lparr>enabled := \<not> enabled tr\<rparr>) s))"

definition toggleVideo :: "session \<Rightarrow> session" where
  "toggleVideo s =
     (case localStreamRef s of
        None \<Rightarrow> s
      | Some st \<Rightarrow>
          (case getTracksOfKind Video st s of
             [] \<Rightarrow> s
           | t # _ \<Rightarrow> updTrack t (\<lambda>tr. tr\<lparr>enabled := \<not> enabled tr\<rparr>) s))"

text \<open>
  \<open>startScreenShare\<close> and \<open>stopScreenShare\<close> take \<open>getVideoTracks()[0]\<close> of a stream just
  acquired with \<open>video: true\<close>, which always has a video track; the branch for an empty
  list is never taken.
\<close>

definition startScreenShare :: "env \<Rightarrow> session \<Rightarrow> outcome \<times> session" where
  "startScreenShare ev s =
     (if \<not> getDisplayMedia_ok ev then (Rejected GetDisplayMediaRejected, s)
      else (case getDisplayMedia s of
              (screenStream, s1) \<Rightarrow>
                (case getTracksOfKind Video screenStream s1 of
                   [] \<Rightarrow> (Rejected NullReference, s1)
                 | screenTrack # _ \<Rightarrow>
                     (let s2 = replaceVideoTrack screenTrack s1;
                          s3 = s2\<lparr>localVideoRef :=
                                    setSrcObject (Local screenStream) (localVideoRef s2)\<rparr>
                      in (Resolved, updTrack screenTrack (\<lambda>tr. tr\<lparr>onended := True\<rparr>) s3)))))"

definition stopScreenShare :: "env \<Rightarrow> session \<Rightarrow> outcome \<times> session" where
  "stopScreenShare ev s =
     (if \<not> getUserMedia_ok ev then (Rejected GetUserMediaRejected, s)
      else (case getUserMedia s of
              (cameraStream, s1) \<Rightarrow>
                (let s2 = (case getTracksOfKind Video cameraStream s1 of
                             [] \<Rightarrow> s1
                           | cameraTrack # _ \<Rightarrow> replaceVideoTrack cameraTrack s1)
                 in (Resolved,
                     s2\<lparr>localStreamRef := Some cameraStream,
                        localVideoRef := setSrcObject (Local cameraStream) (localVideoRef s2)\<rparr>))))"

definition endCall :: "session \<Rightarrow> outcome \<times> session" where
  "endCall s =
     (let s1 = (case localStreamRef s of None \<Rightarrow> s | Some st \<Rightarrow> fold stopTrack st s);
          s2 = closeCurrent s1;
          s3 = s2\<lparr>localStreamRef := None,
                  localVideoRef := setSrcObject Null (localVideoRef s2),
                  remoteVideoRef := setSrcObject Null (remoteVideoRef s2)\<rparr>
      in (Resolved, emit CallEnded s3))"

definition reconnectCall :: "env \<Rightarrow> session \<Rightarrow> outcome \<times> session" where
  "reconnectCall ev s =
     (if localStreamRef s = None then (Resolved, s)
      else offerAndEmit ev True ReconnectOffer (createPeerConnection (closeCurrent s)))"

subsection \<open>Callbacks registered on an engine by createPeerConnection\<close>

definition ontrack :: "nat \<Rightarrow> session \<Rightarrow> session" where
  "ontrack stream s = s\<lparr>remoteVideoRef := setSrcObject (Remote stream) (remoteVideoRef s)\<rparr>"

definition onicecandidate :: "nat option \<Rightarrow> session \<Rightarrow> session" where
  "onicecandidate c s = (case c of None \<Rightarrow> s | Some cand \<Rightarrow> emit (IceCandidate cand) s)"

text \<open>
  \<open>pc.onconnectionstatechange\<close> reads the state of the engine it was registered on
  (\<open>pc\<close> of the closure, not \<open>pcRef.current\<close>) and starts \<open>reconnectCall\<close>, whose promise it
  drops; the outcome is kept here to make a rejection visible.
\<close>

definition onconnectionstatechange :: "env \<Rightarrow> nat \<Rightarrow> session \<Rightarrow> outcome \<times> session" where
  "onconnectionstatechange ev pc s =
     (if pc < length (engines s) \<and>
         (connectionState (engines s ! pc) = Disconnected \<or>
          connectionState (engines s ! pc) = Failed)
      then reconnectCall ev s
      else (Resolved, s))"

subsection \<open>Socket handlers\<close>

text \<open>The tail shared by the \<open>offer\<close> and \<open>reconnect-offer\<close> handlers.\<close>

definition answerAndEmit :: "env \<Rightarrow> sdp \<Rightarrow> (sdp \<Rightarrow> signal) \<Rightarrow> session \<Rightarrow> outcome \<times> session" where
  "answerAndEmit ev offer mk s =
     (case pcRef s of
        None \<Rightarrow> (Rejected NullReference, s)
      | Some pc \<Rightarrow>
          (case setRemoteDescription ev pc offer s of
             (Rejected e, s1) \<Rightarrow> (Rejected e, s1)
           | (Resolved, s1) \<Rightarrow>
               (case createAnswer ev pc s1 of
                  None \<Rightarrow> (Rejected CreateAnswerRejected, s1)
                | Some answer \<Rightarrow>
                    (case setLocalDescription ev pc answer s1 of
                       (Rejected e, s2) \<Rightarrow> (Rejected e, s2)
                     | (Resolved, s2) \<Rightarrow> (Resolved, emit (mk answer) s2)))))"

fun on :: "env \<Rightarrow> signal \<Rightarrow> session \<Rightarrow> outcome \<times> session" where
  "on ev (Offer offer) s =
     (case startCamera ev s of
        (Rejected e, s1) \<Rightarrow> (Rejected e, s1)
      | (Resolved, s1) \<Rightarrow> answerAndEmit ev offer Answer (createPeerConnection s1))"
| "on ev (Answer answer) s =
     (case pcRef s of
        None \<Rightarrow> (Resolved, s)
      | Some pc \<Rightarrow> setRemoteDescription ev pc answer s)"
| "on ev (IceCandidate candidate) s =
     (case pcRef s of
        None \<Rightarrow> (Resolved, s)
      | Some pc \<Rightarrow> addIceCandidate ev pc candidate s)"
| "on ev (ReconnectOffer offer) s =
     answerAndEmit ev offer ReconnectAnswer (createPeerConnection (closeCurrent s))"
| "on ev (ReconnectAnswer answer) s =
     (case pcRef s of
        None \<Rightarrow> (Resolved, s)
      | Some pc \<Rightarrow> setRemoteDescription ev pc answer s)"
| "on ev CallEnded s =
     (Resolved, (closeCurrent s)\<lparr>remoteVideoRef := setSrcObject Null (remoteVideoRef s)\<rparr>)"

text \<open>The specification's \<open>toggleEnabled(kind)\<close> is the pair \<open>toggleAudio\<close> / \<open>toggleVideo\<close>.\<close>

definition toggleEnabled :: "kind \<Rightarrow> session \<Rightarrow> session" where
  "toggleEnabled k s = (case k of Audio \<Rightarrow> toggleAudio s | Video \<Rightarrow> toggleVideo s)"

section \<open>Events and runs\<close>

text \<open>
  What can happen to the component: a button of its UI is pressed, a signaling message
  arrives, an engine reports a connection state, a local candidate or a remote stream,
  or a shared screen track ends outside the page.
\<close>

datatype event =
    StartCall
  | ToggleAudio
  | ToggleVideo
  | StartScreenShare
  | EndCall
  | Receive signal
  | ConnectionStateChange nat connectionState
  | IceCandidateEvent nat "nat option"
  | TrackEvent nat nat
  | TrackEnded nat

text \<open>
  A closed engine fires no event. A track that ends fires \<open>onended\<close> once, and only the
  screen track has a handler (\<open>stopScreenShare\<close>).
\<close>

fun step :: "env \<Rightarrow> event \<Rightarrow> session \<Rightarrow> outcome \<times> session" where
  "step ev StartCall s = startCall ev s"
| "step ev ToggleAudio s = (Resolved, toggleAudio s)"
| "step ev ToggleVideo s = (Resolved, toggleVideo s)"
| "step ev StartScreenShare s = startScreenShare ev s"
| "step ev EndCall s = endCall s"
| "step ev (Receive m) s = on ev m s"
| "step ev (ConnectionStateChange pc st) s =
     (if engineLive pc s
      then onconnectionstatechange ev pc (updEngine pc (\<lambda>e. e\<lparr>connectionState := st\<rparr>) s)
      else (Resolved, s))"
| "step ev (IceCandidateEvent pc c) s =
     (if engineLive pc s then (Resolved, onicecandidate c s) else (Resolved, s))"
| "step ev (TrackEvent pc stream) s =
     (if engineLive pc s then (Resolved, ontrack stream s) else (Resolved, s))"
| "step ev (TrackEnded t) s =
     (if t < length (tracks s) \<and> readyState (tracks s ! t) = Live
      then (let s1 = stopTrack t s
            in if onended (tracks s ! t) then stopScreenShare ev s1 else (Resolved, s1))
      else (Resolved, s))"

fun run :: "(env \<times> event) list \<Rightarrow> session \<Rightarrow> session" where
  "run [] s = s"
| "run ((ev, e) # es) s = run es (snd (step ev e s))"

definition liveEngines :: "session \<Rightarrow> nat" where
  "liveEngines s = length (filter (\<lambda>e. \<not> isClosed e) (engines s))"

text \<open>
  The outbound video of an engine: its senders that carry a video track. A sender is in
  range when its track is in the track store.
\<close>

definition isVideoSender :: "track list \<Rightarrow> nat option \<Rightarrow> bool" where
  "isVideoSender ts x =
     (case x of None \<Rightarrow> False | Some t \<Rightarrow> t < length ts \<and> kind (ts ! t) = Video)"

definition videoSenders :: "nat \<Rightarrow> session \<Rightarrow> nat option list" where
  "videoSenders pc s = filter (isVideoSender (tracks s)) (senders (engines s ! pc))"

definition sendersInRange :: "nat \<Rightarrow> session \<Rightarrow> bool" where
  "sendersInRange pc s =
     list_all (\<lambda>x. case x of None \<Rightarrow> True | Some t \<Rightarrow> t < length (tracks s))
       (senders (engines s ! pc))"

text \<open>
  Handles are well formed when the held engine is open and every track handle of the
  held stream and of every sender is in the track store.
\<close>

definition wellFormed :: "session \<Rightarrow> bool" where
  "wellFormed s =
     ((case pcRef s of None \<Rightarrow> True | Some pc \<Rightarrow> engineLive pc s) \<and>
      (case localStreamRef s of None \<Rightarrow> True
       | Some st \<Rightarrow> list_all (\<lambda>t. t < length (tracks s)) st) \<and>
      list_all (\<lambda>e. list_all (\<lambda>x. case x of None \<Rightarrow> True | Some t \<Rightarrow> t < length (tracks s))
                  (senders e)) (engines s))"

section \<open>Handlers that wait for getUserMedia\<close>

text \<open>
  \<open>startCamera\<close> returns at once when a stream is held (line 18); otherwise it awaits
  \<open>getUserMedia\<close> (line 20) and the handler that called it, \<open>startCall\<close> or the \<open>offer\<close>
  handler, is suspended. Nothing is written before the await, so a suspended handler
  leaves the session as it found it. While it waits the event loop runs other handlers.
  When the media arrives the handler resumes at line 25: it stores the stream without
  testing \<open>localStreamRef\<close> again and goes on with \<open>createPeerConnection\<close> and the
  negotiation, which work on the engine just created and captured in \<open>pc\<close>.
\<close>

datatype pending = StartCallPending | OfferPending sdp

datatype begun = Suspended pending | Finished "outcome \<times> session"

definition startCall_begin :: "env \<Rightarrow> session \<Rightarrow> begun" where
  "startCall_begin ev s =
     (if localStreamRef s \<noteq> None
      then Finished (offerAndEmit ev False Offer (createPeerConnection s))
      else Suspended StartCallPending)"

definition offer_begin :: "env \<Rightarrow> sdp \<Rightarrow> session \<Rightarrow> begun" where
  "offer_begin ev offer s =
     (if localStreamRef s \<noteq> None
      then Finished (answerAndEmit ev offer Answer (createPeerConnection s))
      else Suspended (OfferPending offer))"

text \<open>Lines 25 to 29 of \<open>startCamera\<close>.\<close>

definition startCamera_resume :: "nat list \<Rightarrow> session \<Rightarrow> session" where
  "startCamera_resume stream s =
     s\<lparr>localStreamRef := Some stream,
       localVideoRef := setSrcObject (Local stream) (localVideoRef s)\<rparr>"

text \<open>The awaited \<open>getUserMedia\<close> settles and the suspended handler runs to its end.\<close>

definition resumePending :: "env \<Rightarrow> pending \<Rightarrow> session \<Rightarrow> outcome \<times> session" where
  "resumePending ev p s =
     (if \<not> getUserMedia_ok ev then (Rejected GetUserMediaRejected, s)
      else (case getUserMedia s of
              (stream, s1) \<Rightarrow>
                (case p of
                   StartCallPending \<Rightarrow>
                     offerAndEmit ev False Offer
                       (createPeerConnection (startCamera_resume stream s1))
                 | OfferPending offer \<Rightarrow>
                     answerAndEmit ev offer Answer
                       (createPeerConnection (startCamera_resume stream s1)))))"

text \<open>
  The event loop with suspended handlers: the session and the handlers waiting for
  media, oldest first. An action is an event of the component or the settling of the
  \<open>getUserMedia\<close> call of one waiting handler. \<open>endCall\<close>, like every other handler,
  leaves the waiting handlers alone: the source cancels nothing.
\<close>

datatype action = Do event | ResolveMedia nat

fun istep :: "env \<Rightarrow> action \<Rightarrow> session \<times> pending list \<Rightarrow> session \<times> pending list" where
  "istep ev (Do StartCall) (s, ps) =
     (case startCall_begin ev s of
        Finished r \<Rightarrow> (snd r, ps)
      | Suspended p \<Rightarrow> (s, ps @ [p]))"
| "istep ev (Do (Receive (Offer offer))) (s, ps) =
     (case offer_begin ev offer s of
        Finished r \<Rightarrow> (snd r, ps)
      | Suspended p \<Rightarrow> (s, ps @ [p]))"
| "istep ev (Do e) (s, ps) = (snd (step ev e s), ps)"
| "istep ev (ResolveMedia i) (s, ps) =
     (if i < length ps
      then (snd (resumePending ev (ps ! i) s), take i ps @ drop (Suc i) ps)
      else (s, ps))"

fun irun :: "(env \<times> action) list \<Rightarrow> session \<times> pending list \<Rightarrow> session \<times> pending list" where
  "irun [] c = c"
| "irun ((ev, a) # as) c = irun as (istep ev a c)"

section \<open>Concrete sessions used to evaluate the model\<close>

text \<open>\<open>sC\<close>: a mounted component after one successful press of Start Call.\<close>

definition sC :: "session" where
  "sC = snd (startCall okEnv initial)"

text \<open>
  \<open>sA\<close>: a mounted component that never acquired media, answered a \<open>reconnect-offer\<close>
  and whose engine then reported \<open>connected\<close>.
\<close>

definition sA :: "session" where
  "sA = run [(okEnv, Receive (ReconnectOffer (Sdp OfferType True 0))),
             (okEnv, ConnectionStateChange 0 Connected)] initial"

section \<open>Frame lemmas of the primitives\<close>

lemma updEngine_frame [simp]:
  "tracks (updEngine pc f s) = tracks s"
  "emitted (updEngine pc f s) = emitted s"
  "pcRef (updEngine pc f s) = pcRef s"
  "localStreamRef (updEngine pc f s) = localStreamRef s"
  "localVideoRef (updEngine pc f s) = localVideoRef s"
  "remoteVideoRef (updEngine pc f s) = remoteVideoRef s"
  "length (engines (updEngine pc f s)) = length (engines s)"
  by (simp_all add: updEngine_def)

lemma updTrack_frame [simp]:
  "engines (updTrack t f s) = engines s"
  "emitted (updTrack t f s) = emitted s"
  "pcRef (updTrack t f s) = pcRef s"
  "localStreamRef (updTrack t f s) = localStreamRef s"
  "localVideoRef (updTrack t f s) = localVideoRef s"
  "remoteVideoRef (updTrack t f s) = remoteVideoRef s"
  "length (tracks (updTrack t f s)) = length (tracks s)"
  by (simp_all add: updTrack_def)

lemma fold_stopTrack_frame [simp]:
  "engines (fold stopTrack st s) = engines s"
  "emitted (fold stopTrack st s) = emitted s"
  "pcRef (fold stopTrack st s) = pcRef s"
  "localStreamRef (fold stopTrack st s) = localStreamRef s"
  "localVideoRef (fold stopTrack st s) = localVideoRef s"
  "remoteVideoRef (fold stopTrack st s) = remoteVideoRef s"
  "length (tracks (fold stopTrack st s)) = length (tracks s)"
  by (induction st arbitrary: s; simp add: stopTrack_def)+

lemma closeCurrent_frame [simp]:
  "tracks (closeCurrent s) = tracks s"
  "emitted (closeCurrent s) = emitted s"
  "pcRef (closeCurrent s) = None"
  "localStreamRef (closeCurrent s) = localStreamRef s"
  "localVideoRef (closeCurrent s) = localVideoRef s"
  "remoteVideoRef (closeCurrent s) = remoteVideoRef s"
  "length (engines (closeCurrent s)) = length (engines s)"
  by (simp_all add: closeCurrent_def closeEngine_def split: option.splits)

lemma createPeerConnection_frame [simp]:
  "tracks (createPeerConnection s) = tracks s"
  "emitted (createPeerConnection s) = emitted s"
  "pcRef (createPeerConnection s) = Some (length (engines s))"
  "localStreamRef (createPeerConnection s) = localStreamRef s"
  "localVideoRef (createPeerConnection s) = localVideoRef s"
  "remoteVideoRef (createPeerConnection s) = remoteVideoRef s"
  "length (engines (createPeerConnection s)) = Suc (length (engines s))"
  by (simp_all add: createPeerConnection_def Let_def)

lemma sC_eq:
  "sC = \<lparr> localVideoRef = Some (Local [0, 1]), remoteVideoRef = Some Null,
     pcRef = Some 0, localStreamRef = Some [0, 1],
     engines = [\<lparr> isClosed = False, connectionState = New, senders = [Some 0, Some 1],
        localDescription = Some (Sdp OfferType False 0),
        remoteDescription = None, remoteCandidates = [] \<rparr>],
     tracks = [newTrack Audio UserMedia, newTrack Video UserMedia],
     emitted = [Offer (Sdp OfferType False 0)] \<rparr>"
  by (simp add: sC_def startCall_def startCamera_def initial_def okEnv_def getUserMedia_def
      Let_def setSrcObject_def createPeerConnection_def offerAndEmit_def createOffer_def
      engineLive_def setLocalDescription_def updEngine_def emit_def)

lemma sA_eq:
  "sA = \<lparr> localVideoRef = Some Null, remoteVideoRef = Some Null,
     pcRef = Some 0, localStreamRef = None,
     engines = [\<lparr> isClosed = False, connectionState = Connected, senders = [],
        localDescription = Some (Sdp AnswerType False 0),
        remoteDescription = Some (Sdp OfferType True 0), remoteCandidates = [] \<rparr>],
     tracks = [], emitted = [ReconnectAnswer (Sdp AnswerType False 0)] \<rparr>"
  by (simp add: sA_def initial_def okEnv_def closeCurrent_def createPeerConnection_def
      answerAndEmit_def setRemoteDescription_def setLocalDescription_def createAnswer_def
      engineLive_def updEngine_def emit_def onconnectionstatechange_def Let_def)

lemma offerAndEmit_frame [simp]:
  "tracks (snd (offerAndEmit ev r mk s)) = tracks s"
  "localStreamRef (snd (offerAndEmit ev r mk s)) = localStreamRef s"
  "pcRef (snd (offerAndEmit ev r mk s)) = pcRef s"
  "length (engines (snd (offerAndEmit ev r mk s))) = length (engines s)"
  by (simp_all add: offerAndEmit_def setLocalDescription_def emit_def
      split: option.splits prod.splits outcome.splits)

lemma startCall_holding_stream:
  "localStreamRef s \<noteq> None \<Longrightarrow>
     tracks (snd (startCall ev s)) = tracks s \<and>
     localStreamRef (snd (startCall ev s)) = localStreamRef s"
  by (simp add: startCall_def startCamera_def)

lemmas model_defs =
  initial_def okEnv_def updEngine_def updTrack_def engineLive_def closeEngine_def
  stopTrack_def newTrack_def getUserMedia_def getDisplayMedia_def getTracksOfKind_def
  setSrcObject_def setLocalDescription_def setRemoteDescription_def addIceCandidate_def
  createOffer_def createAnswer_def replaceVideoTrack_def closeCurrent_def emit_def
  startCamera_def createPeerConnection_def offerAndEmit_def startCall_def toggleAudio_def
  toggleVideo_def startScreenShare_def stopScreenShare_def endCall_def reconnectCall_def
  ontrack_def onicecandidate_def onconnectionstatechange_def answerAndEmit_def
  liveEngines_def startCall_begin_def offer_begin_def startCamera_resume_def
  resumePending_def Let_def

lemma fold_stopTrack_readyState:
  "t < length (tracks s) \<Longrightarrow>
     readyState (tracks (fold stopTrack st s) ! t) =
       (if t \<in> set st then Ended else readyState (tracks s ! t))"
proof (induction st arbitrary: s)
  case Nil
  then show ?case by simp
next
  case (Cons a st)
  have len: "t < length (tracks (stopTrack a s))"
    using Cons.prems by (simp add: stopTrack_def)
  have one: "readyState (tracks (stopTrack a s) ! t) =
      (if t = a then Ended else readyState (tracks s ! t))"
    using Cons.prems by (simp add: stopTrack_def updTrack_def nth_list_update)
  have "readyState (tracks (fold stopTrack (a # st) s) ! t) =
      (if t \<in> set st then Ended else readyState (tracks (stopTrack a s) ! t))"
    using Cons.IH [OF len] by simp
  also have "\<dots> = (if t \<in> set (a # st) then Ended else readyState (tracks s ! t))"
    using one by auto
  finally show ?case .
qed

lemma closeCurrent_closes:
  "pcRef s = Some pc \<Longrightarrow> pc < length (engines s) \<Longrightarrow> isClosed (engines (closeCurrent s) ! pc)"
  by (simp add: closeCurrent_def closeEngine_def updEngine_def)

lemma closeCurrent_None: "pcRef s = None \<Longrightarrow> closeCurrent s = s"
  by (simp add: closeCurrent_def)

section \<open>Every reachable session is well formed\<close>

text \<open>
  Each function of the component keeps the handles well formed, so every session reached
  from the mounted component by any events, whatever the browser answers, holds an open
  engine or none, and the senders of the held engine are in range.
\<close>

lemma wf_iff:
  "wellFormed s \<longleftrightarrow>
     (\<forall>pc. pcRef s = Some pc \<longrightarrow> engineLive pc s) \<and>
     (\<forall>st. localStreamRef s = Some st \<longrightarrow> (\<forall>t\<in>set st. t < length (tracks s))) \<and>
     (\<forall>e\<in>set (engines s). \<forall>t. Some t \<in> set (senders e) \<longrightarrow> t < length (tracks s))"
  by (auto simp: wellFormed_def list_all_iff split: option.splits)

lemma wf_sendersD:
  assumes "wellFormed s" and "pc < length (engines s)"
    and "Some t \<in> set (senders (engines s ! pc))"
  shows "t < length (tracks s)"
proof -
  have "engines s ! pc \<in> set (engines s)"
    using assms(2) by simp
  then show ?thesis
    using assms(1,3) unfolding wf_iff by blast
qed

lemma wf_initial: "wellFormed initial"
  by (simp add: wellFormed_def initial_def)

lemma wf_emit [simp]: "wellFormed (emit m s) = wellFormed s"
  by (simp add: wf_iff emit_def engineLive_def)

lemma set_engines_updEngine:
  "e \<in> set (engines (updEngine pc f s)) \<Longrightarrow>
     e \<in> set (engines s) \<or> (pc < length (engines s) \<and> e = f (engines s ! pc))"
proof (cases "pc < length (engines s)")
  case True
  assume "e \<in> set (engines (updEngine pc f s))"
  with True have "e \<in> set ((engines s)[pc := f (engines s ! pc)])"
    by (simp add: updEngine_def)
  then have "e \<in> insert (f (engines s ! pc)) (set (engines s))"
    using set_update_subset_insert by fastforce
  with True show ?thesis by auto
next
  case False
  assume "e \<in> set (engines (updEngine pc f s))"
  with False show ?thesis by (simp add: updEngine_def)
qed

lemma wf_updEngine:
  assumes "wellFormed s" and "\<And>e. senders (f e) = senders e" and "\<And>e. isClosed (f e) = isClosed e"
  shows "wellFormed (updEngine pc f s)"
proof -
  have live: "engineLive p (updEngine pc f s) = engineLive p s" for p
    using assms(3) by (auto simp: engineLive_def updEngine_def nth_list_update)
  have "\<forall>t. Some t \<in> set (senders e) \<longrightarrow> t < length (tracks s)"
    if "e \<in> set (engines (updEngine pc f s))" for e
    using set_engines_updEngine [OF that] assms(1,2) wf_sendersD [OF assms(1), of pc]
    by (auto simp: wf_iff)
  then show ?thesis
    using assms(1) live by (simp add: wf_iff)
qed

lemma wf_updTrack: "wellFormed s \<Longrightarrow> wellFormed (updTrack t f s)"
  by (simp add: wf_iff engineLive_def)

lemma wf_stopTrack: "wellFormed s \<Longrightarrow> wellFormed (stopTrack t s)"
  by (simp add: stopTrack_def wf_updTrack)

lemma wf_fold_stopTrack: "wellFormed s \<Longrightarrow> wellFormed (fold stopTrack st s)"
  by (induction st arbitrary: s) (simp_all add: wf_stopTrack)

lemma wf_closeCurrent: "wellFormed s \<Longrightarrow> wellFormed (closeCurrent s)"
proof -
  assume w: "wellFormed s"
  have "\<forall>t. Some t \<in> set (senders e) \<longrightarrow> t < length (tracks s)"
    if "e \<in> set (engines (closeCurrent s))" for e
  proof (cases "pcRef s")
    case None
    with that w show ?thesis by (simp add: closeCurrent_def wf_iff)
  next
    case (Some pc)
    with that have "e \<in> set (engines (closeEngine pc s))"
      by (simp add: closeCurrent_def)
    from set_engines_updEngine [OF this [unfolded closeEngine_def]] w
      wf_sendersD [OF w, of pc] show ?thesis
      by (auto simp: wf_iff)
  qed
  then show ?thesis
    using w by (simp add: wf_iff)
qed

lemma wf_createPeerConnection: "wellFormed s \<Longrightarrow> wellFormed (createPeerConnection s)"
proof -
  assume w: "wellFormed s"
  let ?e = "\<lparr> isClosed = False, connectionState = New,
      senders = (case localStreamRef s of None \<Rightarrow> [] | Some st \<Rightarrow> map Some st),
      localDescription = None, remoteDescription = None, remoteCandidates = [] \<rparr>"
  have new: "\<forall>t. Some t \<in> set (senders ?e) \<longrightarrow> t < length (tracks s)"
    using w by (cases "localStreamRef s") (auto simp: wf_iff)
  have eq: "createPeerConnection s = s\<lparr>engines := engines s @ [?e], pcRef := Some (length (engines s))\<rparr>"
    by (simp add: createPeerConnection_def Let_def)
  show ?thesis
    unfolding eq using w new by (simp add: wf_iff engineLive_def)
qed

lemma wf_setLocalDescription: "wellFormed s \<Longrightarrow> wellFormed (snd (setLocalDescription ev pc d s))"
  by (simp add: setLocalDescription_def wf_updEngine)

lemma wf_setRemoteDescription: "wellFormed s \<Longrightarrow> wellFormed (snd (setRemoteDescription ev pc d s))"
  by (simp add: setRemoteDescription_def wf_updEngine)

lemma wf_addIceCandidate: "wellFormed s \<Longrightarrow> wellFormed (snd (addIceCandidate ev pc c s))"
  by (simp add: addIceCandidate_def wf_updEngine)

lemma wf_more_tracks:
  "wellFormed s \<Longrightarrow> wellFormed (s\<lparr>tracks := tracks s @ new\<rparr>)"
  by (fastforce simp: wf_iff engineLive_def)

lemma wf_startCamera: "wellFormed s \<Longrightarrow> wellFormed (snd (startCamera ev s))"
proof -
  assume w: "wellFormed s"
  have "wellFormed (s\<lparr>tracks := tracks s @ [newTrack Audio UserMedia, newTrack Video UserMedia],
        localStreamRef := Some [length (tracks s), Suc (length (tracks s))],
        localVideoRef := v\<rparr>)" for v
    using wf_more_tracks [OF w, of "[newTrack Audio UserMedia, newTrack Video UserMedia]"]
    by (auto simp: wf_iff engineLive_def)
  then show ?thesis
    using w by (simp add: startCamera_def getUserMedia_def Let_def)
qed

lemma wf_setLocalDescription_result:
  "wellFormed s \<Longrightarrow> setLocalDescription ev pc d s = (r, s') \<Longrightarrow> wellFormed s'"
  using wf_setLocalDescription [of s ev pc d] by simp

lemma wf_offerAndEmit: "wellFormed s \<Longrightarrow> wellFormed (snd (offerAndEmit ev r mk s))"
  by (auto simp: offerAndEmit_def split: option.splits prod.splits outcome.splits
      dest: wf_setLocalDescription_result)

lemma wf_answerAndEmit: "wellFormed s \<Longrightarrow> wellFormed (snd (answerAndEmit ev d mk s))"
proof -
  assume w: "wellFormed s"
  show ?thesis
  proof (cases "pcRef s")
    case None
    with w show ?thesis by (simp add: answerAndEmit_def)
  next
    case (Some pc)
    obtain o1 s1 where r: "setRemoteDescription ev pc d s = (o1, s1)"
      by (cases "setRemoteDescription ev pc d s")
    have w1: "wellFormed s1" using wf_setRemoteDescription [OF w, of ev pc d] r by simp
    show ?thesis
      using Some r w1
      by (auto simp: answerAndEmit_def split: option.splits prod.splits outcome.splits
          dest: wf_setLocalDescription_result)
  qed
qed

lemma wf_replaceVideoTrack:
  assumes "wellFormed s" and "t < length (tracks s)"
  shows "wellFormed (replaceVideoTrack t s)"
proof -
  have upd: "wellFormed (updEngine pc (\<lambda>e. e\<lparr>senders := (senders e)[i := Some t]\<rparr>) s)" for pc i
  proof -
    have live: "engineLive p (updEngine pc (\<lambda>e. e\<lparr>senders := (senders e)[i := Some t]\<rparr>) s) =
        engineLive p s" for p
      by (auto simp: engineLive_def updEngine_def nth_list_update)
    have "\<forall>u. Some u \<in> set (senders e) \<longrightarrow> u < length (tracks s)"
      if "e \<in> set (engines (updEngine pc (\<lambda>e. e\<lparr>senders := (senders e)[i := Some t]\<rparr>) s))" for e
      using set_engines_updEngine [OF that] assms wf_sendersD [OF assms(1), of pc]
      by (auto simp: wf_iff dest!: set_update_subset_insert [THEN subsetD])
    then show ?thesis
      using assms(1) live by (simp add: wf_iff)
  qed
  show ?thesis
    using assms(1) upd by (simp add: replaceVideoTrack_def split: option.splits)
qed

lemma wf_set_video [simp]:
  "wellFormed (s\<lparr>localVideoRef := v\<rparr>) = wellFormed s" "wellFormed (s\<lparr>remoteVideoRef := v\<rparr>) = wellFormed s"
  by (simp_all add: wf_iff engineLive_def)

lemma wf_startScreenShare: "wellFormed s \<Longrightarrow> wellFormed (snd (startScreenShare ev s))"
proof -
  assume w: "wellFormed s"
  let ?g = "s\<lparr>tracks := tracks s @ [newTrack Video DisplayMedia]\<rparr>"
  have "wellFormed (replaceVideoTrack (length (tracks s)) ?g)"
    using wf_more_tracks [OF w] by (simp add: wf_replaceVideoTrack)
  then show ?thesis
    using w wf_more_tracks [OF w, of "[newTrack Video DisplayMedia]"]
    by (simp add: startScreenShare_def getDisplayMedia_def Let_def getTracksOfKind_def
        newTrack_def wf_updTrack)
qed

lemma wf_stopScreenShare: "wellFormed s \<Longrightarrow> wellFormed (snd (stopScreenShare ev s))"
proof -
  assume w: "wellFormed s"
  let ?g = "s\<lparr>tracks := tracks s @ [newTrack Audio UserMedia, newTrack Video UserMedia]\<rparr>"
  let ?r = "replaceVideoTrack (Suc (length (tracks s))) ?g"
  have r: "wellFormed ?r"
    using wf_more_tracks [OF w] by (simp add: wf_replaceVideoTrack)
  have tr: "tracks ?r = tracks ?g"
    by (simp add: replaceVideoTrack_def split: option.splits)
  have "wellFormed (?r\<lparr>localStreamRef := Some [length (tracks s), Suc (length (tracks s))],
               localVideoRef := v\<rparr>)" for v
    using r tr by (auto simp: wf_iff engineLive_def)
  then show ?thesis
    using w by (simp add: stopScreenShare_def getUserMedia_def Let_def getTracksOfKind_def
        newTrack_def nth_append)
qed

lemma wf_drop_stream: "wellFormed s \<Longrightarrow> wellFormed (s\<lparr>localStreamRef := None\<rparr>)"
  by (simp add: wf_iff engineLive_def)

lemma wf_endCall: "wellFormed s \<Longrightarrow> wellFormed (snd (endCall s))"
proof -
  assume w: "wellFormed s"
  have "wellFormed (closeCurrent (case localStreamRef s of None \<Rightarrow> s | Some st \<Rightarrow> fold stopTrack st s))"
    using w by (auto intro!: wf_closeCurrent wf_fold_stopTrack split: option.splits)
  from wf_drop_stream [OF this] show ?thesis
    by (simp add: endCall_def Let_def)
qed

lemma wf_startCamera_result:
  "wellFormed s \<Longrightarrow> startCamera ev s = (r, s') \<Longrightarrow> wellFormed s'"
  using wf_startCamera [of s ev] by simp

lemma wf_startCall: "wellFormed s \<Longrightarrow> wellFormed (snd (startCall ev s))"
  by (auto simp: startCall_def wf_offerAndEmit wf_createPeerConnection
      split: prod.splits outcome.splits dest: wf_startCamera_result)

lemma wf_reconnectCall: "wellFormed s \<Longrightarrow> wellFormed (snd (reconnectCall ev s))"
  by (simp add: reconnectCall_def wf_offerAndEmit wf_createPeerConnection wf_closeCurrent)

lemma wf_on: "wellFormed s \<Longrightarrow> wellFormed (snd (on ev m s))"
proof (cases m)
  case (Offer d)
  assume "wellFormed s"
  then show ?thesis
    using Offer
    by (auto simp: wf_answerAndEmit wf_createPeerConnection split: prod.splits outcome.splits
        dest: wf_startCamera_result)
next
  case (Answer d)
  assume "wellFormed s"
  then show ?thesis
    using Answer by (simp add: wf_setRemoteDescription split: option.splits)
next
  case (IceCandidate c)
  assume "wellFormed s"
  then show ?thesis
    using IceCandidate by (simp add: wf_addIceCandidate split: option.splits)
next
  case (ReconnectOffer d)
  assume "wellFormed s"
  then show ?thesis
    using ReconnectOffer by (simp add: wf_answerAndEmit wf_createPeerConnection wf_closeCurrent)
next
  case (ReconnectAnswer d)
  assume "wellFormed s"
  then show ?thesis
    using ReconnectAnswer by (simp add: wf_setRemoteDescription split: option.splits)
next
  case CallEnded
  assume "wellFormed s"
  then show ?thesis
    using CallEnded by (simp add: wf_closeCurrent)
qed

lemma wf_toggle: "wellFormed s \<Longrightarrow> wellFormed (toggleAudio s) \<and> wellFormed (toggleVideo s)"
  by (simp add: toggleAudio_def toggleVideo_def wf_updTrack split: option.splits list.splits)

lemma wf_step: "wellFormed s \<Longrightarrow> wellFormed (snd (step ev e s))"
proof (cases e)
  case (ConnectionStateChange pc st)
  assume w: "wellFormed s"
  have "wellFormed (updEngine pc (\<lambda>e. e\<lparr>connectionState := st\<rparr>) s)"
    using w by (simp add: wf_updEngine)
  then show ?thesis
    using w ConnectionStateChange
    by (simp add: onconnectionstatechange_def wf_reconnectCall)
next
  case (TrackEnded t)
  assume w: "wellFormed s"
  then show ?thesis
    using TrackEnded by (simp add: Let_def wf_stopTrack wf_stopScreenShare)
qed (simp_all add: wf_startCall wf_toggle wf_startScreenShare wf_endCall wf_on
      onicecandidate_def ontrack_def split: option.splits)

lemma wf_run: "wellFormed s \<Longrightarrow> wellFormed (run es s)"
  by (induction es arbitrary: s) (auto simp: wf_step)

lemma reachable_wf: "wellFormed (run es initial)"
  by (rule wf_run [OF wf_initial])

lemma reachable_held_engine_live:
  "pcRef (run es initial) = Some pc \<Longrightarrow>
     engineLive pc (run es initial) \<and> sendersInRange pc (run es initial)"
  using reachable_wf [of es] wf_sendersD [OF reachable_wf [of es], of pc]
  by (auto simp: wf_iff sendersInRange_def engineLive_def list_all_iff split: option.splits)

section \<open>A handler that is not interrupted\<close>

text \<open>
  \<open>startCall\<close> and the \<open>offer\<close> handler are their two halves run back to back, and an
  event followed at once by the settling of its own \<open>getUserMedia\<close> is the event of \<open>step\<close>.
\<close>

lemma startCall_recomposed:
  "startCall ev s =
     (case startCall_begin ev s of Finished r \<Rightarrow> r | Suspended p \<Rightarrow> resumePending ev p s)"
  by (simp add: startCall_def startCamera_def startCall_begin_def resumePending_def
      startCamera_resume_def split: prod.splits)

lemma offer_recomposed:
  "on ev (Offer offer) s =
     (case offer_begin ev offer s of Finished r \<Rightarrow> r | Suspended p \<Rightarrow> resumePending ev p s)"
  by (simp add: startCamera_def offer_begin_def resumePending_def
      startCamera_resume_def split: prod.splits)

lemma uninterrupted_is_step:
  "irun [(ev, Do e), (ev, ResolveMedia 0)] (s, []) = (snd (step ev e s), [])"
proof (cases e)
  case StartCall
  then show ?thesis
    by (simp add: startCall_recomposed [of ev s] startCall_begin_def)
next
  case (Receive m)
  show ?thesis
  proof (cases m)
    case (Offer d)
    show ?thesis
      unfolding Receive Offer
      using offer_recomposed [of ev d s]
      by (cases "localStreamRef s = None") (simp_all add: offer_begin_def del: on.simps)
  qed (simp_all add: Receive)
qed simp_all

text \<open>
  Suspended handlers keep the handles well formed too: every session reached with
  handlers waiting and resuming in any order is well formed.
\<close>

lemma wf_resumePending: "wellFormed s \<Longrightarrow> wellFormed (snd (resumePending ev p s))"
proof -
  assume w: "wellFormed s"
  have m: "wellFormed (startCamera_resume [length (tracks s), Suc (length (tracks s))]
      (s\<lparr>tracks := tracks s @ [newTrack Audio UserMedia, newTrack Video UserMedia]\<rparr>))"
    using wf_more_tracks [OF w, of "[newTrack Audio UserMedia, newTrack Video UserMedia]"]
    by (auto simp: wf_iff engineLive_def startCamera_resume_def)
  show ?thesis
    using w m
    by (cases p)
       (simp_all add: resumePending_def getUserMedia_def Let_def wf_offerAndEmit
          wf_answerAndEmit wf_createPeerConnection)
qed

lemma istep_Do_session:
  "fst (istep ev (Do e) (s, ps)) = s \<or> fst (istep ev (Do e) (s, ps)) = snd (step ev e s)"
proof (cases e)
  case StartCall
  then show ?thesis
    using startCall_recomposed [of ev s]
    by (cases "localStreamRef s = None") (simp_all add: startCall_begin_def)
next
  case (Receive m)
  show ?thesis
  proof (cases m)
    case (Offer d)
    show ?thesis
      unfolding Receive Offer
      using offer_recomposed [of ev d s]
      by (cases "localStreamRef s = None") (simp_all add: offer_begin_def del: on.simps)
  qed (simp_all add: Receive)
qed simp_all

lemma wf_istep: "wellFormed (fst c) \<Longrightarrow> wellFormed (fst (istep ev a c))"
proof (cases c)
  case (Pair s ps)
  assume "wellFormed (fst c)"
  then have w: "wellFormed s" by (simp add: Pair)
  show ?thesis
  proof (cases a)
    case (Do e)
    then show ?thesis
      using istep_Do_session [of ev e s ps] w wf_step [OF w, of ev e]
      by (auto simp: Pair)
  next
    case (ResolveMedia i)
    then show ?thesis
      using w by (simp add: Pair wf_resumePending)
  qed
qed

lemma wf_irun: "wellFormed (fst c) \<Longrightarrow> wellFormed (fst (irun as c))"
proof (induction as arbitrary: c)
  case Nil
  then show ?case by simp
next
  case (Cons x as)
  obtain ev a where x: "x = (ev, a)" by (cases x)
  have "wellFormed (fst (istep ev a c))"
    using Cons.prems by (rule wf_istep)
  from Cons.IH [OF this] show ?case
    by (simp add: x)
qed

lemma reachable_wf_interleaved: "wellFormed (fst (irun as (initial, [])))"
  by (rule wf_irun) (simp add: wf_initial)

section \<open>C1: how many engines are open\<close>

text \<open>
  C1. The claim: the session never has more than one open engine, and a handler that
  creates an engine closes the previous one first. The \<open>offer\<close> handler and \<open>startCall\<close>
  call \<open>createPeerConnection\<close> without closing what \<open>pcRef\<close> holds: after two offers
  (or two presses of Start Call) two engines are open, the first no longer referenced.
  The \<open>reconnect-offer\<close> handler closes first, and two reconnect-offers leave one.
\<close>

theorem second_offer_leaves_first_engine_open:
  "pcRef (run [(okEnv, Receive (Offer (Sdp OfferType False 7))),
               (okEnv, Receive (Offer (Sdp OfferType False 8)))] initial) = Some 1 \<and>
   map isClosed (engines (run [(okEnv, Receive (Offer (Sdp OfferType False 7))),
               (okEnv, Receive (Offer (Sdp OfferType False 8)))] initial)) = [False, False] \<and>
   liveEngines (run [(okEnv, Receive (Offer (Sdp OfferType False 7))),
               (okEnv, Receive (Offer (Sdp OfferType False 8)))] initial) = 2 \<and>
   liveEngines (run [(okEnv, StartCall), (okEnv, StartCall)] initial) = 2 \<and>
   liveEngines (run [(okEnv, Receive (ReconnectOffer (Sdp OfferType True 7))),
               (okEnv, Receive (ReconnectOffer (Sdp OfferType True 8)))] initial) = 1"
  by (simp add: model_defs)

lemma reconnectCall_effects:
  assumes "localStreamRef s \<noteq> None" "createOffer_ok ev" "setLocalDescription_ok ev"
    and "s1 = snd (reconnectCall ev s)" and "n = length (engines s)"
  shows "fst (reconnectCall ev s) = Resolved"
    and "emitted s1 = emitted s @ [ReconnectOffer (Sdp OfferType True n)]"
    and "pcRef s1 = Some n"
    and "engineLive n s1"
    and "localDescription (engines s1 ! n) = Some (Sdp OfferType True n)"
    and "tracks s1 = tracks s"
    and "localStreamRef s1 = localStreamRef s"
    and "length (engines s1) = Suc n"
    and "\<And>p. pcRef s = Some p \<Longrightarrow> p < n \<Longrightarrow> isClosed (engines s1 ! p)"
proof -
  let ?c = "createPeerConnection (closeCurrent s)"
  have live: "engineLive n ?c"
    by (simp add: assms(5) engineLive_def createPeerConnection_def Let_def nth_append)
  have pc: "pcRef ?c = Some n"
    by (simp add: assms(5))
  have eq: "reconnectCall ev s =
      (Resolved, emit (ReconnectOffer (Sdp OfferType True n))
         (updEngine n (\<lambda>e. e\<lparr>localDescription := Some (Sdp OfferType True n)\<rparr>) ?c))"
    using assms(1-3) live pc
    by (auto simp: reconnectCall_def offerAndEmit_def createOffer_def setLocalDescription_def)
  show "fst (reconnectCall ev s) = Resolved" by (simp add: eq)
  show "emitted s1 = emitted s @ [ReconnectOffer (Sdp OfferType True n)]"
    by (simp add: assms(4) eq emit_def)
  show "pcRef s1 = Some n" by (simp add: assms(4,5) eq emit_def)
  show "tracks s1 = tracks s" by (simp add: assms(4) eq emit_def)
  show "localStreamRef s1 = localStreamRef s" by (simp add: assms(4) eq emit_def)
  show "length (engines s1) = Suc n" by (simp add: assms(4,5) eq emit_def)
  have len: "length (engines (closeCurrent s)) = n" by (simp add: assms(5))
  have new: "engines s1 ! n = \<lparr> isClosed = False, connectionState = New,
       senders = (case localStreamRef s of None \<Rightarrow> [] | Some st \<Rightarrow> map Some st),
       localDescription = Some (Sdp OfferType True n), remoteDescription = None,
       remoteCandidates = [] \<rparr>"
    using len
    by (simp add: assms(4) eq emit_def updEngine_def createPeerConnection_def Let_def
        nth_append)
  show "engineLive n s1"
    using new \<open>length (engines s1) = Suc n\<close> by (simp add: engineLive_def)
  show "localDescription (engines s1 ! n) = Some (Sdp OfferType True n)"
    using new by simp
  show "isClosed (engines s1 ! p)" if "pcRef s = Some p" "p < n" for p
  proof -
    have "isClosed (engines (closeCurrent s) ! p)"
      using that closeCurrent_closes [of s p] by (simp add: assms(5))
    then show ?thesis
      using that len
      by (simp add: assms(4) eq emit_def updEngine_def createPeerConnection_def Let_def
          nth_append)
  qed
qed

section \<open>C2: reconnection after a connection failure\<close>

text \<open>
  The claim C2 says that in every connected session a \<open>failed\<close> event produces one
  \<open>reconnect-offer\<close> and sets an \<open>iceRestartInFlight\<close> guard. The session \<open>sA\<close> is
  connected (it answered a \<open>reconnect-offer\<close>) and holds no local stream: the \<open>failed\<close>
  event of its engine emits nothing.
\<close>

theorem connected_without_stream_sends_no_reconnect_offer:
  "pcRef sA = Some 0 \<and> connectionState (engines sA ! 0) = Connected \<and>
   engineLive 0 sA \<and>
   emitted (snd (step okEnv (ConnectionStateChange 0 Failed) sA)) = emitted sA \<and>
   emitted sA = [ReconnectAnswer (Sdp AnswerType False 0)]"
  by (simp add: sA_eq model_defs)

text \<open>
  C2, amended. In a session that holds a local stream, a \<open>failed\<close> or \<open>disconnected\<close>
  event of an open engine, when \<open>createOffer\<close> and \<open>setLocalDescription\<close> succeed, closes
  the held engine, creates a new one and emits exactly one \<open>reconnect-offer\<close>, an offer
  asking for an ICE restart that is also the new engine's local description; tracks and
  stream are untouched. This holds in every such state: the session has no field that
  holds back a further attempt. A \<open>reconnect-answer\<close> received then, when
  \<open>setRemoteDescription\<close> succeeds, becomes the remote description of the new engine and
  changes nothing else.
\<close>

theorem failure_with_stream_reconnects_once:
  assumes "localStreamRef s \<noteq> None" and "engineLive pc s"
    and "st = Failed \<or> st = Disconnected"
    and "createOffer_ok ev" and "setLocalDescription_ok ev"
    and "s1 = snd (step ev (ConnectionStateChange pc st) s)" and "n = length (engines s)"
  shows "fst (step ev (ConnectionStateChange pc st) s) = Resolved \<and>
    emitted s1 = emitted s @ [ReconnectOffer (Sdp OfferType True n)] \<and>
    pcRef s1 = Some n \<and> engineLive n s1 \<and>
    localDescription (engines s1 ! n) = Some (Sdp OfferType True n) \<and>
    (\<forall>p. pcRef s = Some p \<and> p < n \<longrightarrow> isClosed (engines s1 ! p)) \<and>
    tracks s1 = tracks s \<and> localStreamRef s1 = localStreamRef s \<and>
    (setRemoteDescription_ok ev' \<longrightarrow>
       on ev' (ReconnectAnswer a) s1 =
         (Resolved, updEngine n (\<lambda>e. e\<lparr>remoteDescription := Some a\<rparr>) s1) \<and>
       remoteDescription (engines (snd (on ev' (ReconnectAnswer a) s1)) ! n) = Some a \<and>
       emitted (snd (on ev' (ReconnectAnswer a) s1)) = emitted s1)"
proof -
  let ?s0 = "updEngine pc (\<lambda>e. e\<lparr>connectionState := st\<rparr>) s"
  have st0: "connectionState (engines ?s0 ! pc) = st" "pc < length (engines ?s0)"
    using assms(2) by (simp_all add: engineLive_def updEngine_def)
  have stepeq: "step ev (ConnectionStateChange pc st) s = reconnectCall ev ?s0"
    using assms(2,3) st0 by (auto simp: onconnectionstatechange_def)
  have s0: "localStreamRef ?s0 \<noteq> None" "length (engines ?s0) = n" "emitted ?s0 = emitted s"
    "pcRef ?s0 = pcRef s" "tracks ?s0 = tracks s" "localStreamRef ?s0 = localStreamRef s"
    using assms(1,7) by simp_all
  have s1: "s1 = snd (reconnectCall ev ?s0)"
    unfolding assms(6) stepeq by (rule refl)
  note r = reconnectCall_effects [OF s0(1) assms(4,5) s1 s0(2) [symmetric]]
  have live: "engineLive n s1" by (rule r(4))
  have ans: "on ev' (ReconnectAnswer a) s1 =
         (Resolved, updEngine n (\<lambda>e. e\<lparr>remoteDescription := Some a\<rparr>) s1)"
    if "setRemoteDescription_ok ev'"
    using that live r(3) by (simp add: setRemoteDescription_def)
  have ans2: "remoteDescription (engines (updEngine n (\<lambda>e. e\<lparr>remoteDescription := Some a\<rparr>) s1) ! n) = Some a"
    using live by (simp add: engineLive_def updEngine_def)
  have closed: "\<forall>p. pcRef s = Some p \<and> p < n \<longrightarrow> isClosed (engines s1 ! p)"
    using r(9) s0(4) by simp
  have res: "fst (step ev (ConnectionStateChange pc st) s) = Resolved"
    unfolding stepeq by (rule r(1))
  show ?thesis
    using res r(2,3,5,6,7) live ans ans2 closed s0(3,5,6) by simp
qed

theorem failure_with_stream_reconnects_once_witness:
  "localStreamRef sC = Some [0, 1] \<and> engineLive 0 sC \<and>
   emitted (snd (step okEnv (ConnectionStateChange 0 Failed) sC)) =
     [Offer (Sdp OfferType False 0), ReconnectOffer (Sdp OfferType True 1)] \<and>
   pcRef (snd (step okEnv (ConnectionStateChange 0 Failed) sC)) = Some 1 \<and>
   isClosed (engines (snd (step okEnv (ConnectionStateChange 0 Failed) sC)) ! 0) \<and>
   remoteDescription (engines (snd (on okEnv (ReconnectAnswer (Sdp AnswerType False 9))
      (snd (step okEnv (ConnectionStateChange 0 Failed) sC)))) ! 1) = Some (Sdp AnswerType False 9)"
  using failure_with_stream_reconnects_once [of sC 0 Failed okEnv
      "snd (step okEnv (ConnectionStateChange 0 Failed) sC)" 1 okEnv "Sdp AnswerType False 9"]
  by (simp add: sC_eq model_defs)

section \<open>C3: endCall\<close>

text \<open>
  The claim C3 says that \<open>endCall\<close> stops all held local media tracks and that after it
  every later signaling message is ignored. Four runs show otherwise. An \<open>offer\<close>
  received after \<open>endCall\<close> is answered on a new engine, and so is a \<open>reconnect-offer\<close>.
  \<open>endCall\<close> pressed during a screen share stops the two camera tracks and leaves the
  screen track (handle 2) live. \<open>endCall\<close> pressed while \<open>startCall\<close> waits for
  \<open>getUserMedia\<close> emits \<open>call-ended\<close>; when the media arrives \<open>startCall\<close> resumes,
  creates an engine and emits its \<open>offer\<close> after the \<open>call-ended\<close>, and an \<open>answer\<close>
  received then is applied to that engine.
\<close>

theorem endCall_is_not_final:
  "on okEnv (Offer (Sdp OfferType False 7)) (snd (endCall sC)) \<noteq> (Resolved, snd (endCall sC)) \<and>
   emitted (snd (on okEnv (Offer (Sdp OfferType False 7)) (snd (endCall sC)))) =
     [Offer (Sdp OfferType False 0), CallEnded, Answer (Sdp AnswerType False 1)] \<and>
   pcRef (snd (on okEnv (Offer (Sdp OfferType False 7)) (snd (endCall sC)))) = Some 1 \<and>
   emitted (snd (on okEnv (ReconnectOffer (Sdp OfferType True 7)) (snd (endCall sC)))) =
     [Offer (Sdp OfferType False 0), CallEnded, ReconnectAnswer (Sdp AnswerType False 1)] \<and>
   map source (tracks (run [(okEnv, StartCall), (okEnv, StartScreenShare),
        (okEnv, EndCall)] initial)) = [UserMedia, UserMedia, DisplayMedia] \<and>
   map readyState (tracks (run [(okEnv, StartCall), (okEnv, StartScreenShare),
        (okEnv, EndCall)] initial)) = [Ended, Ended, Live] \<and>
   irun [(okEnv, Do StartCall), (okEnv, Do EndCall)] (initial, []) =
     (initial\<lparr>emitted := [CallEnded]\<rparr>, [StartCallPending]) \<and>
   emitted (fst (irun [(okEnv, Do StartCall), (okEnv, Do EndCall),
        (okEnv, ResolveMedia 0)] (initial, []))) = [CallEnded, Offer (Sdp OfferType False 0)] \<and>
   pcRef (fst (irun [(okEnv, Do StartCall), (okEnv, Do EndCall),
        (okEnv, ResolveMedia 0)] (initial, []))) = Some 0 \<and>
   map remoteDescription (engines (fst (irun [(okEnv, Do StartCall), (okEnv, Do EndCall),
        (okEnv, ResolveMedia 0), (okEnv, Do (Receive (Answer (Sdp AnswerType False 9))))]
        (initial, [])))) = [Some (Sdp AnswerType False 9)]"
  by (simp add: sC_eq model_defs)

text \<open>
  C3, amended. In every state \<open>endCall\<close> resolves, closes the held engine and drops the
  reference, stops every track of the stream held in \<open>localStreamRef\<close> and drops the
  stream, clears both video elements and emits exactly one \<open>call-ended\<close>; a second
  \<open>endCall\<close> changes no engine and no track. It leaves the handlers that wait for
  \<open>getUserMedia\<close> waiting. In every session that holds no engine, so directly after
  \<open>endCall\<close> and until an engine is created again, a received \<open>answer\<close>,
  \<open>ice-candidate\<close> or \<open>reconnect-answer\<close> changes nothing and emits nothing.
\<close>

theorem endCall_effects:
  assumes "s' = snd (endCall s)"
  shows "fst (endCall s) = Resolved \<and>
    pcRef s' = None \<and> localStreamRef s' = None \<and>
    emitted s' = emitted s @ [CallEnded] \<and>
    localVideoRef s' = setSrcObject Null (localVideoRef s) \<and>
    remoteVideoRef s' = setSrcObject Null (remoteVideoRef s) \<and>
    (\<forall>pc. pcRef s = Some pc \<and> pc < length (engines s) \<longrightarrow> isClosed (engines s' ! pc)) \<and>
    (\<forall>st t. localStreamRef s = Some st \<and> t \<in> set st \<and> t < length (tracks s) \<longrightarrow>
        readyState (tracks s' ! t) = Ended) \<and>
    engines (snd (endCall s')) = engines s' \<and> tracks (snd (endCall s')) = tracks s' \<and>
    istep ev (Do EndCall) (s, ps) = (s', ps) \<and>
    (\<forall>t. pcRef t = None \<longrightarrow>
       on ev (Answer a) t = (Resolved, t) \<and> on ev (IceCandidate c) t = (Resolved, t) \<and>
       on ev (ReconnectAnswer a) t = (Resolved, t))"
proof -
  have refs: "pcRef s' = None" "localStreamRef s' = None"
    by (simp_all add: assms endCall_def Let_def emit_def)
  have closed: "isClosed (engines s' ! pc)" if "pcRef s = Some pc" "pc < length (engines s)" for pc
  proof (cases "localStreamRef s")
    case None
    then show ?thesis
      using that closeCurrent_closes [of s pc]
      by (simp add: assms endCall_def Let_def emit_def)
  next
    case (Some st)
    then show ?thesis
      using that closeCurrent_closes [of "fold stopTrack st s" pc]
      by (simp add: assms endCall_def Let_def emit_def)
  qed
  have stopped: "readyState (tracks s' ! t) = Ended"
    if "localStreamRef s = Some st" "t \<in> set st" "t < length (tracks s)" for st t
    using that fold_stopTrack_readyState [of t s st]
    by (simp add: assms endCall_def Let_def emit_def)
  have again: "engines (snd (endCall s')) = engines s'" "tracks (snd (endCall s')) = tracks s'"
    using refs by (simp_all add: endCall_def Let_def emit_def closeCurrent_None)
  have ignored: "\<forall>t. pcRef t = None \<longrightarrow>
      on ev (Answer a) t = (Resolved, t) \<and> on ev (IceCandidate c) t = (Resolved, t) \<and>
      on ev (ReconnectAnswer a) t = (Resolved, t)"
    by simp
  have waiting: "istep ev (Do EndCall) (s, ps) = (s', ps)"
    by (simp add: assms)
  have basic: "fst (endCall s) = Resolved" "emitted s' = emitted s @ [CallEnded]"
    "localVideoRef s' = setSrcObject Null (localVideoRef s)"
    "remoteVideoRef s' = setSrcObject Null (remoteVideoRef s)"
    by (simp_all add: assms endCall_def Let_def emit_def split: option.splits)
  show ?thesis
    using refs closed stopped again ignored waiting basic by blast
qed

theorem endCall_effects_witness:
  "pcRef sC = Some 0 \<and> localStreamRef sC = Some [0, 1] \<and>
   pcRef (snd (endCall sC)) = None \<and> localStreamRef (snd (endCall sC)) = None \<and>
   emitted (snd (endCall sC)) = [Offer (Sdp OfferType False 0), CallEnded] \<and>
   isClosed (engines (snd (endCall sC)) ! 0) \<and>
   readyState (tracks (snd (endCall sC)) ! 0) = Ended \<and>
   readyState (tracks (snd (endCall sC)) ! 1) = Ended \<and>
   istep okEnv (Do EndCall) (sC, [StartCallPending]) = (snd (endCall sC), [StartCallPending]) \<and>
   on okEnv (Answer (Sdp AnswerType False 7)) (snd (endCall sC)) = (Resolved, snd (endCall sC))"
  using endCall_effects [where s = sC and s' = "snd (endCall sC)" and ev = okEnv
      and a = "Sdp AnswerType False 7" and c = 0 and ps = "[StartCallPending]"]
  by (simp add: sC_eq)

section \<open>C4: a remote call-ended\<close>

text \<open>
  The claim C4 says that a remote \<open>call-ended\<close> releases the local media tracks. After
  Start Call and a remote \<open>call-ended\<close> both local tracks are live and the stream is held.
\<close>

theorem remote_call_ended_keeps_tracks_live:
  "localStreamRef (snd (on okEnv CallEnded sC)) = Some [0, 1] \<and>
   map readyState (tracks (snd (on okEnv CallEnded sC))) = [Live, Live] \<and>
   isClosed (engines (snd (on okEnv CallEnded sC)) ! 0)"
  by (simp add: sC_eq model_defs)

text \<open>
  C4, amended. On a remote \<open>call-ended\<close> the handler resolves, emits nothing, closes the
  held engine, drops the reference and clears the remote video element; the track store,
  the held local stream and the local video element are left as they were.
\<close>

theorem remote_call_ended_effects:
  assumes "s' = snd (on ev CallEnded s)"
  shows "fst (on ev CallEnded s) = Resolved \<and>
    emitted s' = emitted s \<and> pcRef s' = None \<and>
    (\<forall>pc. pcRef s = Some pc \<and> pc < length (engines s) \<longrightarrow> isClosed (engines s' ! pc)) \<and>
    remoteVideoRef s' = setSrcObject Null (remoteVideoRef s) \<and>
    tracks s' = tracks s \<and> localStreamRef s' = localStreamRef s \<and>
    localVideoRef s' = localVideoRef s"
  using closeCurrent_closes [of s] by (simp add: assms)

theorem remote_call_ended_effects_witness:
  "pcRef sC = Some 0 \<and>
   emitted (snd (on okEnv CallEnded sC)) = emitted sC \<and>
   pcRef (snd (on okEnv CallEnded sC)) = None \<and>
   isClosed (engines (snd (on okEnv CallEnded sC)) ! 0) \<and>
   tracks (snd (on okEnv CallEnded sC)) = tracks sC"
  using remote_call_ended_effects [of "snd (on okEnv CallEnded sC)" okEnv sC]
  by (simp add: sC_eq)

section \<open>C7: remote ICE candidates\<close>

text \<open>
  The claim C7 says that a candidate received while no engine exists is buffered and
  flushed once the remote description is applied. A candidate received before the first
  offer leaves the session unchanged, and the engine created for the offer has the remote
  description and no candidate.
\<close>

theorem early_candidate_is_lost:
  "on okEnv (IceCandidate 5) initial = (Resolved, initial) \<and>
   pcRef (run [(okEnv, Receive (IceCandidate 5)),
               (okEnv, Receive (Offer (Sdp OfferType False 7)))] initial) = Some 0 \<and>
   map remoteDescription (engines (run [(okEnv, Receive (IceCandidate 5)),
               (okEnv, Receive (Offer (Sdp OfferType False 7)))] initial)) =
     [Some (Sdp OfferType False 7)] \<and>
   map remoteCandidates (engines (run [(okEnv, Receive (IceCandidate 5)),
               (okEnv, Receive (Offer (Sdp OfferType False 7)))] initial)) = [[]]"
  by (simp add: model_defs)

text \<open>
  C7, amended. A received candidate is handed to \<open>addIceCandidate\<close> of the held engine:
  when that succeeds the candidate is appended to that engine's candidates and nothing
  else changes; when it rejects the session is unchanged. With no engine held the
  candidate is dropped: the session is unchanged and nothing is kept for later.
\<close>

theorem ice_candidate_forwarded_or_dropped:
  assumes "s' = snd (on ev (IceCandidate c) s)"
  shows "(pcRef s = None \<longrightarrow> on ev (IceCandidate c) s = (Resolved, s)) \<and>
    (pcRef s = Some pc \<and> engineLive pc s \<and> addIceCandidate_ok ev \<longrightarrow>
       fst (on ev (IceCandidate c) s) = Resolved \<and>
       remoteCandidates (engines s' ! pc) = remoteCandidates (engines s ! pc) @ [c] \<and>
       (\<forall>i. i < length (engines s) \<and> i \<noteq> pc \<longrightarrow> engines s' ! i = engines s ! i) \<and>
       emitted s' = emitted s \<and> pcRef s' = pcRef s \<and> tracks s' = tracks s) \<and>
    (pcRef s = Some pc \<and> \<not> (engineLive pc s \<and> addIceCandidate_ok ev) \<longrightarrow>
       on ev (IceCandidate c) s = (Rejected AddIceCandidateRejected, s))"
  by (auto simp: assms addIceCandidate_def updEngine_def engineLive_def)

theorem ice_candidate_forwarded_or_dropped_witness:
  "pcRef sC = Some 0 \<and> engineLive 0 sC \<and> addIceCandidate_ok okEnv \<and>
   remoteCandidates (engines (snd (on okEnv (IceCandidate 5) sC)) ! 0) = [5] \<and>
   emitted (snd (on okEnv (IceCandidate 5) sC)) = emitted sC"
  using ice_candidate_forwarded_or_dropped [of "snd (on okEnv (IceCandidate 5) sC)" okEnv 5 sC 0]
  by (simp add: sC_eq engineLive_def okEnv_def)

lemma findVideoSender_Cons:
  "findVideoSender ts (x # xs) =
     (if isVideoSender ts x then Some 0 else map_option Suc (findVideoSender ts xs))"
  by (cases x) (simp_all add: isVideoSender_def)

lemma findVideoSender_single:
  "filter (isVideoSender ts) xs = [x] \<Longrightarrow> isVideoSender ts y \<Longrightarrow>
     \<exists>i. findVideoSender ts xs = Some i \<and> i < length xs \<and>
         filter (isVideoSender ts) (xs[i := y]) = [y]"
proof (induction xs)
  case Nil
  then show ?case by simp
next
  case (Cons a xs)
  show ?case
  proof (cases "isVideoSender ts a")
    case True
    with Cons.prems have "filter (isVideoSender ts) xs = []" by simp
    with True Cons.prems(2) show ?thesis
      by (simp add: findVideoSender_Cons)
  next
    case False
    with Cons.prems have "filter (isVideoSender ts) xs = [x]" by simp
    from Cons.IH [OF this Cons.prems(2)] obtain i where
      i: "findVideoSender ts xs = Some i" "i < length xs"
         "filter (isVideoSender ts) (xs[i := y]) = [y]"
      by blast
    with False show ?thesis
      by (simp add: findVideoSender_Cons)
  qed
qed

lemma isVideoSender_kinds:
  assumes "map kind ts' = map kind ts"
  shows "isVideoSender ts' x = isVideoSender ts x"
proof -
  have len: "length ts' = length ts"
    using assms by (rule map_eq_imp_length_eq)
  have "kind (ts' ! t) = kind (ts ! t)" if "t < length ts" for t
    using that len nth_map [of t ts' kind] nth_map [of t ts kind] assms by simp
  then show ?thesis
    using len by (cases x) (auto simp: isVideoSender_def)
qed

lemma isVideoSender_append:
  "(case x of None \<Rightarrow> True | Some t \<Rightarrow> t < length ts) \<Longrightarrow>
     isVideoSender (ts @ new) x = isVideoSender ts x"
  by (cases x) (simp_all add: isVideoSender_def nth_append)

lemma filter_isVideoSender_append:
  "list_all (\<lambda>x. case x of None \<Rightarrow> True | Some t \<Rightarrow> t < length ts) xs \<Longrightarrow>
     filter (isVideoSender (ts @ new)) xs = filter (isVideoSender ts) xs"
  by (induction xs) (simp_all add: isVideoSender_append)

lemma replaceVideoTrack_single:
  assumes "pcRef s = Some pc" and "engineLive pc s" and "videoSenders pc s = [x]"
    and "t < length (tracks s)" and "kind (tracks s ! t) = Video"
  shows "videoSenders pc (replaceVideoTrack t s) = [Some t]"
    and "tracks (replaceVideoTrack t s) = tracks s"
    and "pcRef (replaceVideoTrack t s) = Some pc"
    and "engineLive pc (replaceVideoTrack t s)"
    and "localStreamRef (replaceVideoTrack t s) = localStreamRef s"
    and "length (senders (engines (replaceVideoTrack t s) ! pc)) =
           length (senders (engines s ! pc))"
    and "sendersInRange pc s \<Longrightarrow> sendersInRange pc (replaceVideoTrack t s)"
proof -
  have y: "isVideoSender (tracks s) (Some t)"
    using assms(4,5) by (simp add: isVideoSender_def)
  from findVideoSender_single [OF assms(3) [unfolded videoSenders_def] y] obtain i where
    i: "findVideoSender (tracks s) (senders (engines s ! pc)) = Some i"
       "i < length (senders (engines s ! pc))"
       "filter (isVideoSender (tracks s)) ((senders (engines s ! pc))[i := Some t]) = [Some t]"
    by blast
  have eq: "replaceVideoTrack t s =
      updEngine pc (\<lambda>e. e\<lparr>senders := (senders e)[i := Some t]\<rparr>) s"
    using assms(1,2) i(1) by (simp add: replaceVideoTrack_def)
  have pcl: "pc < length (engines s)"
    using assms(2) by (simp add: engineLive_def)
  have snd: "senders (engines (replaceVideoTrack t s) ! pc) =
      (senders (engines s ! pc))[i := Some t]"
    using pcl by (simp add: eq updEngine_def)
  show "videoSenders pc (replaceVideoTrack t s) = [Some t]"
    using i(3) snd by (simp add: videoSenders_def eq)
  show "tracks (replaceVideoTrack t s) = tracks s" by (simp add: eq)
  show "pcRef (replaceVideoTrack t s) = Some pc" by (simp add: eq assms(1))
  show "engineLive pc (replaceVideoTrack t s)"
    using assms(2) by (simp add: eq engineLive_def updEngine_def)
  show "localStreamRef (replaceVideoTrack t s) = localStreamRef s" by (simp add: eq)
  show "length (senders (engines (replaceVideoTrack t s) ! pc)) =
           length (senders (engines s ! pc))"
    by (simp add: snd)
  show "sendersInRange pc (replaceVideoTrack t s)" if "sendersInRange pc s"
  proof -
    have "list_all (\<lambda>x. case x of None \<Rightarrow> True | Some t \<Rightarrow> t < length (tracks s))
        ((senders (engines s ! pc))[i := Some t])"
      using that assms(4)
      by (auto simp: sendersInRange_def list_all_iff dest!: set_update_subset_insert [THEN subsetD])
    then show ?thesis
      unfolding sendersInRange_def snd by (simp add: eq)
  qed
qed

lemma videoSenders_kinds:
  "map kind (tracks s') = map kind (tracks s) \<Longrightarrow> engines s' = engines s \<Longrightarrow>
     videoSenders pc s' = videoSenders pc s"
  using isVideoSender_kinds [of "tracks s'" "tracks s"] by (simp add: videoSenders_def cong: filter_cong)

lemma updTrack_tracks:
  "tracks (updTrack t f s) = (tracks s)[t := f (tracks s ! t)]"
  by (simp add: updTrack_def list_update_beyond)

lemma startScreenShare_effects:
  assumes "pcRef s = Some pc" and "engineLive pc s" and "videoSenders pc s = [x]"
    and "sendersInRange pc s" and "getDisplayMedia_ok ev"
    and "s1 = snd (startScreenShare ev s)" and "n = length (tracks s)"
  shows "fst (startScreenShare ev s) = Resolved"
    and "tracks s1 = tracks s @ [(newTrack Video DisplayMedia)\<lparr>onended := True\<rparr>]"
    and "videoSenders pc s1 = [Some n]"
    and "pcRef s1 = Some pc"
    and "engineLive pc s1"
    and "sendersInRange pc s1"
    and "localStreamRef s1 = localStreamRef s"
    and "length (senders (engines s1 ! pc)) = length (senders (engines s ! pc))"
proof -
  let ?g = "s\<lparr>tracks := tracks s @ [newTrack Video DisplayMedia]\<rparr>"
  have g1: "pcRef ?g = Some pc" "engineLive pc ?g" "n < length (tracks ?g)"
    "kind (tracks ?g ! n) = Video"
    using assms(1,2,7) by (simp_all add: engineLive_def newTrack_def)
  have g2: "videoSenders pc ?g = [x]"
    using assms(3,4) filter_isVideoSender_append [of "tracks s" "senders (engines s ! pc)"]
    by (simp add: videoSenders_def sendersInRange_def)
  have g3: "sendersInRange pc ?g"
    using assms(4) by (auto simp: sendersInRange_def list_all_iff split: option.splits)
  note r = replaceVideoTrack_single [OF g1(1) g1(2) g2 g1(3) g1(4)]
  let ?r = "replaceVideoTrack n ?g"
  let ?r' = "?r\<lparr>localVideoRef := setSrcObject (Local [n]) (localVideoRef ?r)\<rparr>"
  have eq: "startScreenShare ev s =
      (Resolved, updTrack n (\<lambda>tr. tr\<lparr>onended := True\<rparr>) ?r')"
    using assms(5,7) by (simp add: startScreenShare_def getDisplayMedia_def Let_def
        getTracksOfKind_def newTrack_def)
  have s1: "s1 = updTrack n (\<lambda>tr. tr\<lparr>onended := True\<rparr>) ?r'"
    by (simp add: assms(6) eq)
  show "fst (startScreenShare ev s) = Resolved" by (simp add: eq)
  have t1: "tracks s1 = (tracks ?r)[n := (tracks ?r ! n)\<lparr>onended := True\<rparr>]"
    by (simp add: s1 updTrack_tracks)
  show tr: "tracks s1 = tracks s @ [(newTrack Video DisplayMedia)\<lparr>onended := True\<rparr>]"
    unfolding t1 r(2) using assms(7) by simp
  have eng: "engines s1 = engines ?r" by (simp add: s1)
  have kinds: "map kind (tracks s1) = map kind (tracks ?r)"
    unfolding tr r(2) by (simp add: newTrack_def)
  show "videoSenders pc s1 = [Some n]"
    using videoSenders_kinds [OF kinds eng, of pc] r(1) by simp
  show "pcRef s1 = Some pc" using r(3) by (simp add: s1)
  show "engineLive pc s1" using r(4) by (simp add: engineLive_def eng)
  have len1: "length (tracks s1) = length (tracks ?r)"
    by (simp add: t1)
  show "sendersInRange pc s1"
    using r(7) [OF g3] unfolding sendersInRange_def eng len1 .
  show "localStreamRef s1 = localStreamRef s" using r(5) by (simp add: s1)
  show "length (senders (engines s1 ! pc)) = length (senders (engines s ! pc))"
    using r(6) by (simp add: eng)
qed

lemma stopScreenShare_effects:
  assumes "pcRef s = Some pc" and "engineLive pc s" and "videoSenders pc s = [x]"
    and "sendersInRange pc s" and "getUserMedia_ok ev"
    and "s2 = snd (stopScreenShare ev s)" and "n = length (tracks s)"
  shows "fst (stopScreenShare ev s) = Resolved"
    and "tracks s2 = tracks s @ [newTrack Audio UserMedia, newTrack Video UserMedia]"
    and "videoSenders pc s2 = [Some (Suc n)]"
    and "pcRef s2 = Some pc"
    and "engineLive pc s2"
    and "localStreamRef s2 = Some [n, Suc n]"
    and "length (senders (engines s2 ! pc)) = length (senders (engines s ! pc))"
proof -
  let ?g = "s\<lparr>tracks := tracks s @ [newTrack Audio UserMedia, newTrack Video UserMedia]\<rparr>"
  have g1: "pcRef ?g = Some pc" "engineLive pc ?g" "Suc n < length (tracks ?g)"
    "kind (tracks ?g ! Suc n) = Video"
    using assms(1,2,7) by (simp_all add: engineLive_def newTrack_def nth_append)
  have g2: "videoSenders pc ?g = [x]"
    using assms(3,4) filter_isVideoSender_append [of "tracks s" "senders (engines s ! pc)"]
    by (simp add: videoSenders_def sendersInRange_def)
  note r = replaceVideoTrack_single [OF g1(1) g1(2) g2 g1(3) g1(4)]
  let ?r = "replaceVideoTrack (Suc n) ?g"
  have eq: "stopScreenShare ev s =
      (Resolved, ?r\<lparr>localStreamRef := Some [n, Suc n],
                     localVideoRef := setSrcObject (Local [n, Suc n]) (localVideoRef ?r)\<rparr>)"
    using assms(5,7) by (simp add: stopScreenShare_def getUserMedia_def Let_def
        getTracksOfKind_def newTrack_def nth_append)
  have s2: "s2 = ?r\<lparr>localStreamRef := Some [n, Suc n],
                     localVideoRef := setSrcObject (Local [n, Suc n]) (localVideoRef ?r)\<rparr>"
    by (simp add: assms(6) eq)
  show "fst (stopScreenShare ev s) = Resolved" by (simp add: eq)
  show "tracks s2 = tracks s @ [newTrack Audio UserMedia, newTrack Video UserMedia]"
    by (simp add: s2 r(2))
  show "videoSenders pc s2 = [Some (Suc n)]"
    using r(1) by (simp add: s2 videoSenders_def)
  show "pcRef s2 = Some pc" using r(3) by (simp add: s2)
  show "engineLive pc s2" using r(4) by (simp add: s2 engineLive_def)
  show "localStreamRef s2 = Some [n, Suc n]" by (simp add: s2)
  show "length (senders (engines s2 ! pc)) = length (senders (engines s ! pc))"
    using r(6) by (simp add: s2)
qed

section \<open>C5: screen share and back\<close>

text \<open>
  The claim C5 says that \<open>startScreenShare\<close> followed by \<open>stopScreenShare\<close> leaves the
  screen track stopped. \<open>stopScreenShare\<close> contains no \<open>stop()\<close>: run after
  \<open>startScreenShare\<close> on the session \<open>sC\<close> it leaves the screen track (handle 2) live.
  The same is reached by events alone: after a second Share Screen the sender carries
  screen track 3; when screen track 2 ends, its \<open>onended\<close> runs \<open>stopScreenShare\<close>, and
  track 3 stays live.
\<close>

theorem stopScreenShare_leaves_screen_track_live:
  "map source (tracks (snd (stopScreenShare okEnv (snd (startScreenShare okEnv sC))))) =
     [UserMedia, UserMedia, DisplayMedia, UserMedia, UserMedia] \<and>
   map readyState (tracks (snd (stopScreenShare okEnv (snd (startScreenShare okEnv sC))))) =
     [Live, Live, Live, Live, Live] \<and>
   senders (engines (run [(okEnv, StartCall), (okEnv, StartScreenShare),
        (okEnv, StartScreenShare)] initial) ! 0) = [Some 0, Some 3] \<and>
   map readyState (tracks (run [(okEnv, StartCall), (okEnv, StartScreenShare),
        (okEnv, StartScreenShare), (okEnv, TrackEnded 2)] initial)) =
     [Live, Live, Ended, Live, Live, Live]"
  by (simp add: sC_eq model_defs)

text \<open>
  C5, amended. Let the held engine be open and carry exactly one video sender, and let
  both acquisitions succeed. Then \<open>startScreenShare\<close> followed by \<open>stopScreenShare\<close> leaves
  the number of senders unchanged and exactly one video sender, which carries the video
  track of a camera stream acquired by \<open>stopScreenShare\<close>; that stream becomes the held
  stream. \<open>stopScreenShare\<close> stops no track: called directly it leaves the screen track
  live. When it is run by the screen track's \<open>onended\<close> (the only place the component
  calls it), the result is the same and the screen track has ended.
\<close>

theorem screen_share_round_trip:
  assumes "pcRef s = Some pc" and "engineLive pc s" and "videoSenders pc s = [x]"
    and "sendersInRange pc s" and "getDisplayMedia_ok ev1" and "getUserMedia_ok ev2"
    and "n = length (tracks s)"
    and "s1 = snd (startScreenShare ev1 s)"
    and "s2 = snd (stopScreenShare ev2 s1)"
    and "s3 = snd (step ev2 (TrackEnded n) s1)"
  shows "videoSenders pc s2 = [Some (n + 2)] \<and>
    length (senders (engines s2 ! pc)) = length (senders (engines s ! pc)) \<and>
    localStreamRef s2 = Some [n + 1, n + 2] \<and>
    tracks s2 = tracks s @ [(newTrack Video DisplayMedia)\<lparr>onended := True\<rparr>,
       newTrack Audio UserMedia, newTrack Video UserMedia] \<and>
    videoSenders pc s3 = [Some (n + 2)] \<and>
    length (senders (engines s3 ! pc)) = length (senders (engines s ! pc)) \<and>
    localStreamRef s3 = Some [n + 1, n + 2] \<and>
    tracks s3 = tracks s @ [(newTrack Video DisplayMedia)\<lparr>onended := True, readyState := Ended\<rparr>,
       newTrack Audio UserMedia, newTrack Video UserMedia]"
proof -
  note a = startScreenShare_effects [OF assms(1-5) assms(8) assms(7)]
  have n1: "Suc n = length (tracks s1)"
    by (simp add: a(2) assms(7))
  note b = stopScreenShare_effects [OF a(4) a(5) a(3) a(6) assms(6) assms(9) n1]
  let ?e = "stopTrack n s1"
  have tre: "tracks ?e = tracks s @ [(newTrack Video DisplayMedia)\<lparr>onended := True, readyState := Ended\<rparr>]"
    unfolding stopTrack_def updTrack_tracks a(2) using assms(7) by simp
  have ee: "engines ?e = engines s1" "pcRef ?e = Some pc"
    using a(4) by (simp_all add: stopTrack_def)
  have kinds: "map kind (tracks ?e) = map kind (tracks s1)"
    unfolding tre a(2) by (simp add: newTrack_def)
  have e1: "engineLive pc ?e" using a(5) by (simp add: engineLive_def ee(1))
  have e2: "videoSenders pc ?e = [Some n]"
    using videoSenders_kinds [OF kinds ee(1), of pc] a(3) by simp
  have lene: "length (tracks ?e) = length (tracks s1)" by (simp add: stopTrack_def)
  have e3: "sendersInRange pc ?e"
    using a(6) unfolding sendersInRange_def ee(1) lene .
  have live: "n < length (tracks s1)" "readyState (tracks s1 ! n) = Live"
    "onended (tracks s1 ! n)"
    unfolding a(2) using assms(7) by (simp_all add: newTrack_def)
  have s3: "s3 = snd (stopScreenShare ev2 ?e)"
    using live by (simp add: assms(10))
  have n3: "Suc n = length (tracks ?e)" using n1 lene by simp
  note c = stopScreenShare_effects [OF ee(2) e1 e2 e3 assms(6) s3 n3]
  have "tracks s2 = tracks s @ [(newTrack Video DisplayMedia)\<lparr>onended := True\<rparr>,
       newTrack Audio UserMedia, newTrack Video UserMedia]"
    unfolding b(2) a(2) by simp
  moreover have "tracks s3 = tracks s @ [(newTrack Video DisplayMedia)\<lparr>onended := True, readyState := Ended\<rparr>,
       newTrack Audio UserMedia, newTrack Video UserMedia]"
    unfolding c(2) tre by simp
  moreover have "length (senders (engines s3 ! pc)) = length (senders (engines s ! pc))"
    using c(7) a(8) by (simp add: ee(1))
  ultimately show ?thesis
    using b(3,6,7) c(3,6) a(8) by simp
qed

theorem screen_share_round_trip_witness:
  "pcRef sC = Some 0 \<and> engineLive 0 sC \<and> videoSenders 0 sC = [Some 1] \<and>
   sendersInRange 0 sC \<and>
   videoSenders 0 (snd (stopScreenShare okEnv (snd (startScreenShare okEnv sC)))) = [Some 4] \<and>
   senders (engines (snd (stopScreenShare okEnv (snd (startScreenShare okEnv sC)))) ! 0) =
     [Some 0, Some 4] \<and>
   readyState (tracks (snd (step okEnv (TrackEnded 2) (snd (startScreenShare okEnv sC)))) ! 2) =
     Ended \<and>
   videoSenders 0 (snd (step okEnv (TrackEnded 2) (snd (startScreenShare okEnv sC)))) = [Some 4]"
  using screen_share_round_trip [of sC 0 "Some 1" okEnv okEnv 2
      "snd (startScreenShare okEnv sC)"
      "snd (stopScreenShare okEnv (snd (startScreenShare okEnv sC)))"
      "snd (step okEnv (TrackEnded 2) (snd (startScreenShare okEnv sC)))"]
  by (simp add: sC_eq model_defs videoSenders_def isVideoSender_def sendersInRange_def)

section \<open>C6: Start Call pressed twice\<close>

text \<open>
  When the second \<open>startCall\<close> begins after the first has settled, the guard of line 18
  holds: whenever the first call left a stream held, the second leaves the track store and
  the held stream as they were.
\<close>

lemma startCall_after_settled_acquires_nothing:
  "(localStreamRef (snd (startCall e1 s)) \<noteq> None \<longrightarrow>
      tracks (snd (startCall e2 (snd (startCall e1 s)))) = tracks (snd (startCall e1 s)) \<and>
      localStreamRef (snd (startCall e2 (snd (startCall e1 s)))) =
        localStreamRef (snd (startCall e1 s))) \<and>
   (localStreamRef s = None \<and> getUserMedia_ok e1 \<longrightarrow>
      localStreamRef (snd (startCall e1 s)) = Some [length (tracks s), Suc (length (tracks s))] \<and>
      tracks (snd (startCall e2 (snd (startCall e1 s)))) =
        tracks s @ [newTrack Audio UserMedia, newTrack Video UserMedia])"
proof -
  have a: "localStreamRef s = None \<and> getUserMedia_ok e1 \<longrightarrow>
      localStreamRef (snd (startCall e1 s)) = Some [length (tracks s), Suc (length (tracks s))] \<and>
      tracks (snd (startCall e1 s)) =
        tracks s @ [newTrack Audio UserMedia, newTrack Video UserMedia]"
    by (simp add: startCall_def startCamera_def getUserMedia_def Let_def)
  show ?thesis
    using a startCall_holding_stream [of "snd (startCall e1 s)" e2] by auto
qed

text \<open>
  C6. The claim: a second \<open>startCall\<close> with no \<open>endCall\<close> between acquires no media, the
  local tracks are acquired exactly once. \<open>startCamera\<close> tests \<open>localStreamRef\<close> before it
  awaits \<open>getUserMedia\<close> and sets it after. Start Call pressed twice before the first
  \<open>getUserMedia\<close> settles: both calls pass the test and wait; when the two acquisitions
  settle, four tracks exist, all live, and the held stream is the second one (handles 2
  and 3). Pressed again only after the first call has settled, two tracks exist.
\<close>

theorem overlapping_startCalls_acquire_twice:
  "snd (irun [(okEnv, Do StartCall), (okEnv, Do StartCall)] (initial, [])) =
     [StartCallPending, StartCallPending] \<and>
   snd (irun [(okEnv, Do StartCall), (okEnv, Do StartCall),
              (okEnv, ResolveMedia 0), (okEnv, ResolveMedia 0)] (initial, [])) = [] \<and>
   map source (tracks (fst (irun [(okEnv, Do StartCall), (okEnv, Do StartCall),
              (okEnv, ResolveMedia 0), (okEnv, ResolveMedia 0)] (initial, [])))) =
     [UserMedia, UserMedia, UserMedia, UserMedia] \<and>
   map readyState (tracks (fst (irun [(okEnv, Do StartCall), (okEnv, Do StartCall),
              (okEnv, ResolveMedia 0), (okEnv, ResolveMedia 0)] (initial, [])))) =
     [Live, Live, Live, Live] \<and>
   localStreamRef (fst (irun [(okEnv, Do StartCall), (okEnv, Do StartCall),
              (okEnv, ResolveMedia 0), (okEnv, ResolveMedia 0)] (initial, []))) = Some [2, 3] \<and>
   length (tracks (fst (irun [(okEnv, Do StartCall), (okEnv, ResolveMedia 0),
              (okEnv, Do StartCall), (okEnv, ResolveMedia 0)] (initial, [])))) = 2"
  by (simp add: model_defs)

section \<open>C8: mute toggles\<close>

text \<open>
  C8. \<open>toggleEnabled\<close> on a kind changes no engine (so no sender is added, removed or
  replaced), emits no message, acquires no track and keeps the held stream; when the held
  stream has a track of that kind, the only change in the whole session is the \<open>enabled\<close>
  flag of the first such track, which is negated.
\<close>

theorem toggle_flips_only_enabled:
  "engines (toggleEnabled k s) = engines s \<and>
   emitted (toggleEnabled k s) = emitted s \<and>
   pcRef (toggleEnabled k s) = pcRef s \<and>
   localStreamRef (toggleEnabled k s) = localStreamRef s \<and>
   length (tracks (toggleEnabled k s)) = length (tracks s) \<and>
   (localStreamRef s = Some st \<and> getTracksOfKind k st s = t # rest \<longrightarrow>
      t < length (tracks s) \<and> kind (tracks s ! t) = k \<and>
      toggleEnabled k s =
        s\<lparr>tracks := (tracks s)[t := (tracks s ! t)\<lparr>enabled := \<not> enabled (tracks s ! t)\<rparr>]\<rparr> \<and>
      enabled (tracks (toggleEnabled k s) ! t) = (\<not> enabled (tracks s ! t)))"
proof -
  have in_range: "t < length (tracks s) \<and> kind (tracks s ! t) = k"
    if "getTracksOfKind k st s = t # rest"
  proof -
    have "t \<in> set (getTracksOfKind k st s)" using that by simp
    then show ?thesis by (simp add: getTracksOfKind_def)
  qed
  show ?thesis
    using in_range
    by (cases k)
       (auto simp: toggleEnabled_def toggleAudio_def toggleVideo_def updTrack_def
             split: option.splits list.splits)
qed

theorem toggle_flips_only_enabled_witness:
  "localStreamRef sC = Some [0, 1] \<and> getTracksOfKind Audio [0, 1] sC = [0] \<and>
   toggleEnabled Audio sC =
     sC\<lparr>tracks := [(newTrack Audio UserMedia)\<lparr>enabled := False\<rparr>, newTrack Video UserMedia]\<rparr> \<and>
   engines (toggleEnabled Audio sC) = engines sC \<and>
   emitted (toggleEnabled Audio sC) = emitted sC"
  using toggle_flips_only_enabled [of Audio sC "[0, 1]" 0 "[]"]
  by (simp add: sC_eq getTracksOfKind_def newTrack_def)

section \<open>C9: a connection failure with no local stream\<close>

text \<open>
  C9. When no local stream is held, \<open>reconnectCall\<close> returns at once and leaves the whole
  session as it was: no engine is closed or created, no description is set, nothing is
  emitted. So does the \<open>onconnectionstatechange\<close> callback of any engine, and the only
  trace of a connection-state event is the state the engine itself reports.
\<close>

theorem reconnect_without_stream_noop:
  "localStreamRef s = None \<Longrightarrow>
     reconnectCall ev s = (Resolved, s) \<and>
     onconnectionstatechange ev pc s = (Resolved, s) \<and>
     step ev (ConnectionStateChange pc st) s =
       (Resolved, if engineLive pc s then updEngine pc (\<lambda>e. e\<lparr>connectionState := st\<rparr>) s else s)"
  by (simp add: reconnectCall_def onconnectionstatechange_def)

theorem reconnect_without_stream_noop_witness:
  "localStreamRef sA = None \<and>
   reconnectCall okEnv sA = (Resolved, sA) \<and>
   emitted (snd (step okEnv (ConnectionStateChange 0 Failed) sA)) = emitted sA \<and>
   pcRef (snd (step okEnv (ConnectionStateChange 0 Failed) sA)) = Some 0 \<and>
   liveEngines (snd (step okEnv (ConnectionStateChange 0 Failed) sA)) = 1"
  using reconnect_without_stream_noop [of sA okEnv 0 Failed]
  by (simp add: sA_eq engineLive_def updEngine_def liveEngines_def)

section \<open>C10: endCall in any state\<close>

text \<open>
  C10. \<open>endCall\<close> can be invoked in every state, also with no engine and no media ever
  acquired: it never fails, and it emits exactly one \<open>call-ended\<close> message, appended to
  what was emitted before. On the untouched component it changes nothing else.
\<close>

theorem endCall_never_fails_emits_once:
  "fst (endCall s) = Resolved \<and>
   emitted (snd (endCall s)) = emitted s @ [CallEnded] \<and>
   endCall initial = (Resolved, initial\<lparr>emitted := [CallEnded]\<rparr>)"
proof -
  have "endCall initial = (Resolved, initial\<lparr>emitted := [CallEnded]\<rparr>)"
    by (simp add: endCall_def Let_def emit_def initial_def closeCurrent_def setSrcObject_def)
  then show ?thesis
    by (simp add: endCall_def Let_def emit_def split: option.splits)
qed

theorem endCall_never_fails_emits_once_witness:
  "fst (endCall sC) = Resolved \<and>
   emitted (snd (endCall sC)) = [Offer (Sdp OfferType False 0), CallEnded]"
  using endCall_never_fails_emits_once [of sC] by (simp add: sC_eq)

end
